theory Spec2Isabelle
  imports Complex_Main "HOL-Library.Word"
begin

section \<open>Dual-ESC balance rig: the experiment sketch and the balance sketch\<close>

text \<open>
  The repository holds three Arduino sketches for the same rig.
  \<^item> The \<^emph>\<open>experiment sketch\<close> (\<^verbatim>\<open>src/PracticeV2/PracticeV2.ino\<close>, second part, lines
    476 to 1179): web start request, fixed-duration run, sampling buffer. It is embedded
    in full below, under the source's own names.
  \<^item> Its predecessor without the sampling buffer (same file, lines 1 to 475). Its
    \<^verbatim>\<open>ControlStepPID\<close>, \<^verbatim>\<open>HoldEscMin\<close>, \<^verbatim>\<open>SlewBothTo\<close>, \<^verbatim>\<open>HandleSet\<close> and
    \<^verbatim>\<open>HandleState\<close> are textually the same as in the experiment sketch; only its
    \<^verbatim>\<open>HandleStart\<close> differs (no sampling reset) and is embedded as \<open>HandleStart_ui\<close>.
  \<^item> The \<^emph>\<open>balance sketch\<close> (\<^verbatim>\<open>src/PracticeV2.ino\<close>): no web interface, no phases; the
    controller runs from the end of \<^verbatim>\<open>setup\<close> on. Its definitions carry the suffix
    \<open>_bal\<close>.

  Conventions of the embedding.
  \<^item> C \<^verbatim>\<open>int\<close> is \<^typ>\<open>int\<close>: every \<^verbatim>\<open>int\<close> of the sketches stays far inside 32 bits
    (pulse widths, ADC counts, their differences).
  \<^item> \<^verbatim>\<open>uint32_t\<close> and \<^verbatim>\<open>uint16_t\<close> are \<^typ>\<open>32 word\<close> and \<^typ>\<open>16 word\<close>, so clock
    arithmetic wraps as on the device; \<^verbatim>\<open>int16_t\<close> is a \<^typ>\<open>16 word\<close> read with \<^const>\<open>sint\<close>.
  \<^item> C \<^verbatim>\<open>float\<close> is a type parameter \<open>'f\<close>, and the arithmetic on it is a parameter
    \<open>F\<close> of every definition that computes with floats: a record of the operations the
    sketches use (conversion from a number, the four operations, negation, the two
    comparisons, the cast to \<^verbatim>\<open>int\<close>, \<^verbatim>\<open>roundf\<close>, \<^verbatim>\<open>fabs\<close>). The definitions apply these
    operations in the order of the C expressions. A theorem stated for every \<open>F\<close> holds
    whatever the arithmetic does, rounding and NaN included. Concrete runs are evaluated
    in the arithmetic \<open>ideal\<close>: exact reals extended by a NaN that every operation
    passes on and every comparison answers with false.
  \<^item> \<^verbatim>\<open>analogRead\<close> and \<^verbatim>\<open>millis\<close> are inputs: each call site of one loop iteration has
    a field of its own in the record \<open>env\<close>. \<^verbatim>\<open>delay\<close> only lets the clock advance and
    has no counterpart of its own.
  \<^item> Each \<^verbatim>\<open>Servo\<close> object is the history of the pulse widths written to it, newest
    first.
  \<^item> Serial logging, the relay pin, Wi-Fi management and the HTML page are not embedded.
    \<^verbatim>\<open>ServiceWeb\<close> dispatches at most one request per call; the call inside
    \<^verbatim>\<open>SlewBothTo\<close> is taken to find no pending request.
\<close>

subsection \<open>Float arithmetic\<close>

record 'f float_ops =
  frnd :: "real \<Rightarrow> 'f"
  fadd :: "'f \<Rightarrow> 'f \<Rightarrow> 'f"
  fsub :: "'f \<Rightarrow> 'f \<Rightarrow> 'f"
  fmul :: "'f \<Rightarrow> 'f \<Rightarrow> 'f"
  fdiv :: "'f \<Rightarrow> 'f \<Rightarrow> 'f"
  fneg :: "'f \<Rightarrow> 'f"
  flt :: "'f \<Rightarrow> 'f \<Rightarrow> bool"
  fle :: "'f \<Rightarrow> 'f \<Rightarrow> bool"
  ftrunc :: "'f \<Rightarrow> int"
  froundf :: "'f \<Rightarrow> 'f"
  ffabs :: "'f \<Rightarrow> 'f"

text \<open>
  \<open>frnd F x\<close> is the float for the number \<open>x\<close>: a literal such as \<^verbatim>\<open>0.20f\<close>, or the
  conversion of an integer operand. \<open>flt\<close> and \<open>fle\<close> are \<^verbatim>\<open><\<close> and \<^verbatim>\<open><=\<close>
  (\<^verbatim>\<open>a > b\<close> is \<open>flt F b a\<close>). \<open>ftrunc\<close> is the cast \<^verbatim>\<open>(int)x\<close>.

  The exact conversions on reals: \<^verbatim>\<open>(int)x\<close> truncates towards zero, \<^verbatim>\<open>roundf\<close> rounds
  to the nearest integer with halfway cases away from zero.
\<close>

definition to_int :: "real \<Rightarrow> int" where
  "to_int x = (if 0 \<le> x then \<lfloor>x\<rfloor> else \<lceil>x\<rceil>)"

definition roundf :: "real \<Rightarrow> real" where
  "roundf x = (if 0 \<le> x then of_int \<lfloor>x + 1/2\<rfloor> else of_int \<lceil>x - 1/2\<rceil>)"

text \<open>
  The arithmetic \<open>ideal\<close>. A division by zero gives NaN (there are no infinities), and
  the cast of NaN to \<^verbatim>\<open>int\<close>, which C leaves undefined, gives 0; no statement below
  depends on the value of a division by zero or of the cast of a NaN.
\<close>

datatype fl = Fin real | NaN

fun fl_add :: "fl \<Rightarrow> fl \<Rightarrow> fl" where
  "fl_add (Fin x) (Fin y) = Fin (x + y)"
| "fl_add a b = NaN"

fun fl_sub :: "fl \<Rightarrow> fl \<Rightarrow> fl" where
  "fl_sub (Fin x) (Fin y) = Fin (x - y)"
| "fl_sub a b = NaN"

fun fl_mul :: "fl \<Rightarrow> fl \<Rightarrow> fl" where
  "fl_mul (Fin x) (Fin y) = Fin (x * y)"
| "fl_mul a b = NaN"

fun fl_div :: "fl \<Rightarrow> fl \<Rightarrow> fl" where
  "fl_div (Fin x) (Fin y) = (if y = 0 then NaN else Fin (x / y))"
| "fl_div a b = NaN"

fun fl_neg :: "fl \<Rightarrow> fl" where
  "fl_neg (Fin x) = Fin (- x)"
| "fl_neg NaN = NaN"

fun fl_lt :: "fl \<Rightarrow> fl \<Rightarrow> bool" where
  "fl_lt (Fin x) (Fin y) = (x < y)"
| "fl_lt a b = False"

fun fl_le :: "fl \<Rightarrow> fl \<Rightarrow> bool" where
  "fl_le (Fin x) (Fin y) = (x \<le> y)"
| "fl_le a b = False"

fun fl_trunc :: "fl \<Rightarrow> int" where
  "fl_trunc (Fin x) = to_int x"
| "fl_trunc NaN = 0"

fun fl_roundf :: "fl \<Rightarrow> fl" where
  "fl_roundf (Fin x) = Fin (roundf x)"
| "fl_roundf NaN = NaN"

fun fl_fabs :: "fl \<Rightarrow> fl" where
  "fl_fabs (Fin x) = Fin \<bar>x\<bar>"
| "fl_fabs NaN = NaN"

definition ideal :: "fl float_ops" where
  "ideal = \<lparr> frnd = Fin, fadd = fl_add, fsub = fl_sub, fmul = fl_mul, fdiv = fl_div,
      fneg = fl_neg, flt = fl_lt, fle = fl_le, ftrunc = fl_trunc, froundf = fl_roundf,
      ffabs = fl_fabs \<rparr>"

subsection \<open>Constants\<close>

type_synonym u32 = "32 word"
type_synonym u16 = "16 word"
type_synonym i16 = "16 word"

definition PulseMinUs :: int where "PulseMinUs = 1100"
definition PulseMaxUs :: int where "PulseMaxUs = 1500"
definition BaseUs :: int where "BaseUs = 1250"
definition DeltaMaxUs :: int where "DeltaMaxUs = 120"
definition SlewStepUs :: int where "SlewStepUs = 4"

definition PotCenter :: int where "PotCenter = 660"
definition PotMinSafe :: int where "PotMinSafe = 300"
definition PotMaxSafe :: int where "PotMaxSafe = 900"
definition PotAlpha :: "'f float_ops \<Rightarrow> 'f" where "PotAlpha F = frnd F 0.20"
definition DAlpha :: "'f float_ops \<Rightarrow> 'f" where "DAlpha F = frnd F 0.20"

definition LoopDtMs :: int where "LoopDtMs = 10"
definition IntegralMaxUs :: int where "IntegralMaxUs = 80"
definition ExperimentDurationMs :: u32 where "ExperimentDurationMs = 20000"
definition SamplePeriodMs :: u16 where "SamplePeriodMs = 50"
definition MaxSamples :: int where "MaxSamples = 500"

subsection \<open>Utilities\<close>

definition ClampInt :: "int \<Rightarrow> int \<Rightarrow> int \<Rightarrow> int" where
  "ClampInt v lo hi = (if v < lo then lo else if v > hi then hi else v)"

text \<open>
  Arduino's macro \<^verbatim>\<open>constrain(amt, low, high)\<close>, used on floats by \<^verbatim>\<open>HandleSet\<close>:
  \<^verbatim>\<open>((amt)<(low)?(low):((amt)>(high)?(high):(amt)))\<close>.
\<close>

definition constrain :: "'f float_ops \<Rightarrow> 'f \<Rightarrow> 'f \<Rightarrow> 'f \<Rightarrow> 'f" where
  "constrain F amt low high =
     (if flt F amt low then low else if flt F high amt then high else amt)"

text \<open>
  The pair of statements \<^verbatim>\<open>if (x > m) x = m; if (x < -m) x = -m;\<close> with an \<^verbatim>\<open>int\<close>
  bound \<open>m\<close>, which the sketches apply to the integral accumulator, to the differential
  output and, in \<^verbatim>\<open>clamp16\<close>, to the logged terms.
\<close>

definition limit_pm :: "'f float_ops \<Rightarrow> int \<Rightarrow> 'f \<Rightarrow> 'f" where
  "limit_pm F m x =
     (let x1 = (if flt F (frnd F (of_int m)) x then frnd F (of_int m) else x)
      in if flt F x1 (frnd F (of_int (- m))) then frnd F (of_int (- m)) else x1)"

subsection \<open>State of the experiment sketch\<close>

record 'f sketch =
  KpUsPerCount :: 'f
  KiUsPerCountSec :: 'f
  KdUsPerCountPerSec :: 'f
  InvertDirection :: bool
  IntUs :: 'f
  DerivFilt :: 'f
  PotFiltered :: int
  LastTsMs :: u32
  lastY :: int
  CmdUs1 :: int
  CmdUs2 :: int
  Esc1 :: "int list"
  Esc2 :: "int list"
  ExperimentRunning :: bool
  ExperimentEndMs :: u32
  SampleCount :: u16
  Tms :: "nat \<Rightarrow> u16"
  AdcRaw :: "nat \<Rightarrow> u16"
  AdcErr :: "nat \<Rightarrow> i16"
  AdcFilt :: "nat \<Rightarrow> u16"
  PUs :: "nat \<Rightarrow> i16"
  IUs :: "nat \<Rightarrow> i16"
  DUs :: "nat \<Rightarrow> i16"
  NextSampleAtMs :: u32
  ExperimentStartMs :: u32
  SamplesReady :: bool

text \<open>The static initialisers; \<open>lastY\<close> is the function-local static of \<^verbatim>\<open>ControlStepPID\<close>.\<close>

definition boot :: "'f float_ops \<Rightarrow> 'f sketch" where
  "boot F = \<lparr> KpUsPerCount = frnd F 0.25, KiUsPerCountSec = frnd F 0.10,
      KdUsPerCountPerSec = frnd F 0.10,
      InvertDirection = False, IntUs = frnd F 0, DerivFilt = frnd F 0, PotFiltered = 0,
      LastTsMs = 0, lastY = 0, CmdUs1 = PulseMinUs, CmdUs2 = PulseMinUs, Esc1 = [],
      Esc2 = [], ExperimentRunning = False, ExperimentEndMs = 0, SampleCount = 0,
      Tms = (\<lambda>_. 0), AdcRaw = (\<lambda>_. 0), AdcErr = (\<lambda>_. 0), AdcFilt = (\<lambda>_. 0),
      PUs = (\<lambda>_. 0), IUs = (\<lambda>_. 0), DUs = (\<lambda>_. 0),
      NextSampleAtMs = 0, ExperimentStartMs = 0, SamplesReady = False \<rparr>"

text \<open>
  The pending request and the readings of one iteration of \<^verbatim>\<open>loop\<close>, one field per
  call site:
  \<^item> \<open>web\<close>: the request that \<^verbatim>\<open>ServiceWeb\<close> dispatches, if any; the arguments of a
    \<^verbatim>\<open>/set\<close> request are the values of \<^verbatim>\<open>toFloat()\<close> and \<^verbatim>\<open>toInt()\<close>;
  \<^item> \<open>raw_web\<close>, \<open>now_web\<close>: \<^verbatim>\<open>analogRead\<close> and \<^verbatim>\<open>millis\<close> in \<^verbatim>\<open>HandleState\<close>;
    \<open>now_web\<close> is also the first \<^verbatim>\<open>millis\<close> of \<^verbatim>\<open>HandleStart\<close> (the one stored in
    \<^verbatim>\<open>LastTsMs\<close>);
  \<^item> \<open>now_start\<close>: the \<^verbatim>\<open>millis\<close> that \<^verbatim>\<open>HandleStart\<close> stores in
    \<^verbatim>\<open>ExperimentStartMs\<close>, before the slew;
  \<^item> \<open>now_armed\<close>: the \<^verbatim>\<open>millis\<close> of \<^verbatim>\<open>HandleStart\<close> after the slew, from which
    \<^verbatim>\<open>ExperimentEndMs\<close> is counted;
  \<^item> \<open>raw_pid\<close>, \<open>now_pid\<close>: \<^verbatim>\<open>analogRead\<close> and \<^verbatim>\<open>millis\<close> in \<^verbatim>\<open>ControlStepPID\<close>;
  \<^item> \<open>now_sample\<close>, \<open>raw_sample\<close>: \<^verbatim>\<open>millis\<close> and \<^verbatim>\<open>analogRead\<close> in \<^verbatim>\<open>TrySample\<close>;
  \<^item> \<open>now_end\<close>: the \<^verbatim>\<open>millis\<close> of the end-of-run check in \<^verbatim>\<open>loop\<close>.
\<close>

datatype 'f request =
    GetRoot
  | GetState
  | GetSet "'f option" "'f option" "'f option" "int option"
  | GetStart
  | GetData

record 'f env =
  web :: "'f request option"
  raw_web :: int
  now_web :: u32
  now_start :: u32
  now_armed :: u32
  raw_pid :: int
  now_pid :: u32
  now_sample :: u32
  raw_sample :: int
  now_end :: u32

subsection \<open>Actuator helpers\<close>

definition writeEsc :: "'f sketch \<Rightarrow> 'f sketch" where
  "writeEsc s = s\<lparr>Esc1 := CmdUs1 s # Esc1 s, Esc2 := CmdUs2 s # Esc2 s\<rparr>"

definition HoldEscMin :: "'f sketch \<Rightarrow> 'f sketch" where
  "HoldEscMin s = writeEsc (s\<lparr>CmdUs1 := PulseMinUs, CmdUs2 := PulseMinUs\<rparr>)"

text \<open>
  The loop of \<^verbatim>\<open>SlewBothTo\<close> on the two command variables: the list of the pairs
  written to the ESCs, one per iteration, oldest first. The flag \<^verbatim>\<open>done\<close> stays true
  exactly when both commands already were at their targets when the iteration began.
\<close>

function SlewLoop :: "int \<Rightarrow> int \<Rightarrow> int \<Rightarrow> int \<Rightarrow> (int \<times> int) list" where
  "SlewLoop target1 target2 c1 c2 =
     (if c1 = target1 \<and> c2 = target2 then [(c1, c2)]
      else
        (if c1 \<noteq> target1 then c1 + ClampInt (target1 - c1) (- SlewStepUs) SlewStepUs else c1,
         if c2 \<noteq> target2 then c2 + ClampInt (target2 - c2) (- SlewStepUs) SlewStepUs else c2)
        # SlewLoop target1 target2
            (if c1 \<noteq> target1 then c1 + ClampInt (target1 - c1) (- SlewStepUs) SlewStepUs else c1)
            (if c2 \<noteq> target2 then c2 + ClampInt (target2 - c2) (- SlewStepUs) SlewStepUs else c2))"
  by pat_completeness auto
termination
  by (relation "measure (\<lambda>(t1, t2, c1, c2). nat (\<bar>t1 - c1\<bar> + \<bar>t2 - c2\<bar>))")
     (auto simp: ClampInt_def SlewStepUs_def)

declare SlewLoop.simps [simp del]

definition SlewBothTo :: "int \<Rightarrow> int \<Rightarrow> 'f sketch \<Rightarrow> 'f sketch" where
  "SlewBothTo target1 target2 s =
     (let ws = SlewLoop (ClampInt target1 PulseMinUs PulseMaxUs)
                        (ClampInt target2 PulseMinUs PulseMaxUs) (CmdUs1 s) (CmdUs2 s)
      in s\<lparr>CmdUs1 := fst (last ws), CmdUs2 := snd (last ws),
            Esc1 := rev (map fst ws) @ Esc1 s, Esc2 := rev (map snd ws) @ Esc2 s\<rparr>)"

subsection \<open>Arming\<close>

text \<open>
  \<^verbatim>\<open>CalibrateBothMaxMin\<close> writes the maximum and then the minimum pulse to the ESCs
  directly, without touching the command variables, and ends with \<^verbatim>\<open>HoldEscMin\<close>.
  \<^verbatim>\<open>setup\<close> parks the outputs, waits, energises the relay and calibrates; it is
  named \<open>setup_exp\<close> here.
\<close>

definition CalibrateBothMaxMin :: "'f sketch \<Rightarrow> 'f sketch" where
  "CalibrateBothMaxMin s =
     HoldEscMin (s\<lparr>Esc1 := PulseMinUs # PulseMaxUs # Esc1 s,
                    Esc2 := PulseMinUs # PulseMaxUs # Esc2 s\<rparr>)"

definition setup_exp :: "'f sketch \<Rightarrow> 'f sketch" where
  "setup_exp s = CalibrateBothMaxMin (HoldEscMin s)"

subsection \<open>The PID step\<close>

text \<open>
  \<^verbatim>\<open>ControlStepPID\<close> with the reading \<open>raw\<close> of \<^verbatim>\<open>analogRead\<close> and the reading
  \<open>now\<close> of \<^verbatim>\<open>millis\<close>. Its statements are named one by one, in the source's order:
  \<^item> \<open>filt\<close>: the new \<^verbatim>\<open>PotFiltered\<close>, seeded with \<open>raw\<close> while it is still 0;
  \<^item> \<open>signed_err\<close>: \<^verbatim>\<open>err = PotCenter - PotFiltered\<close>, negated under \<^verbatim>\<open>InvertDirection\<close>
    (the same two lines stand in \<^verbatim>\<open>TrySample\<close> and \<^verbatim>\<open>HandleState\<close>);
  \<^item> \<open>dtSec\<close>: the time step in seconds, \<^verbatim>\<open>LoopDtMs/1000.0f\<close> when it is not positive;
  \<^item> \<open>deriv\<close>: the new \<^verbatim>\<open>DerivFilt\<close>;
  \<^item> \<open>integ\<close>: the new \<^verbatim>\<open>IntUs\<close>: \<^verbatim>\<open>IntUs += Ki * err * dtSec\<close>, then the two limiting
    \<^verbatim>\<open>if\<close>s;
  \<^item> \<open>uDiff\<close>: \<^verbatim>\<open>Kp*err + IntUs - Kd*DerivFilt\<close>, then the two limiting \<^verbatim>\<open>if\<close>s.
\<close>

definition filt :: "'f float_ops \<Rightarrow> int \<Rightarrow> 'f sketch \<Rightarrow> int" where
  "filt F raw s =
     (let pf0 = (if PotFiltered s = 0 then raw else PotFiltered s)
      in ftrunc F (fadd F (fmul F (fsub F (frnd F 1) (PotAlpha F)) (frnd F (of_int pf0)))
                          (fmul F (PotAlpha F) (frnd F (of_int raw)))))"

definition signed_err :: "int \<Rightarrow> 'f sketch \<Rightarrow> int" where
  "signed_err pf s = (let err = PotCenter - pf in if InvertDirection s then - err else err)"

definition dtSec :: "'f float_ops \<Rightarrow> u32 \<Rightarrow> 'f sketch \<Rightarrow> 'f" where
  "dtSec F now s =
     (let lts = (if LastTsMs s = 0 then now else LastTsMs s);
          dt = fdiv F (frnd F (real (unat (now - lts)))) (frnd F 1000)
      in if fle F dt (frnd F 0) then fdiv F (frnd F (of_int LoopDtMs)) (frnd F 1000) else dt)"

definition deriv :: "'f float_ops \<Rightarrow> int \<Rightarrow> u32 \<Rightarrow> 'f sketch \<Rightarrow> 'f" where
  "deriv F raw now s =
     (let ly = (if lastY s = 0 then filt F raw s else lastY s);
          dY = fdiv F (frnd F (of_int (filt F raw s - ly))) (dtSec F now s)
      in fadd F (fmul F (fsub F (frnd F 1) (DAlpha F)) (DerivFilt s)) (fmul F (DAlpha F) dY))"

definition integ :: "'f float_ops \<Rightarrow> int \<Rightarrow> u32 \<Rightarrow> 'f sketch \<Rightarrow> 'f" where
  "integ F raw now s =
     limit_pm F IntegralMaxUs
       (fadd F (IntUs s)
          (fmul F (fmul F (KiUsPerCountSec s) (frnd F (of_int (signed_err (filt F raw s) s))))
                  (dtSec F now s)))"

definition uDiff :: "'f float_ops \<Rightarrow> int \<Rightarrow> u32 \<Rightarrow> 'f sketch \<Rightarrow> 'f" where
  "uDiff F raw now s =
     limit_pm F DeltaMaxUs
       (fsub F
          (fadd F (fmul F (KpUsPerCount s) (frnd F (of_int (signed_err (filt F raw s) s))))
                  (integ F raw now s))
          (fmul F (KdUsPerCountPerSec s) (deriv F raw now s)))"

definition ControlStepPID :: "'f float_ops \<Rightarrow> int \<Rightarrow> u32 \<Rightarrow> 'f sketch \<Rightarrow> 'f sketch" where
  "ControlStepPID F raw now s =
     (if raw < PotMinSafe \<or> raw > PotMaxSafe then HoldEscMin s
      else
        let u1 = ClampInt (BaseUs + ftrunc F (uDiff F raw now s)) PulseMinUs PulseMaxUs;
            u2 = ClampInt (BaseUs - ftrunc F (uDiff F raw now s)) PulseMinUs PulseMaxUs;
            step1 = ClampInt (u1 - CmdUs1 s) (- SlewStepUs) SlewStepUs;
            step2 = ClampInt (u2 - CmdUs2 s) (- SlewStepUs) SlewStepUs
        in writeEsc (s\<lparr>PotFiltered := filt F raw s, LastTsMs := now, lastY := filt F raw s,
                         DerivFilt := deriv F raw now s, IntUs := integ F raw now s,
                         CmdUs1 := CmdUs1 s + step1, CmdUs2 := CmdUs2 s + step2\<rparr>))"

subsection \<open>Sampling\<close>

text \<open>The lambda \<^verbatim>\<open>clamp16\<close> of \<^verbatim>\<open>TrySample\<close>, ending in the cast to \<^verbatim>\<open>int16_t\<close>.\<close>

definition clamp16 :: "'f float_ops \<Rightarrow> 'f \<Rightarrow> int \<Rightarrow> i16" where
  "clamp16 F v limit = word_of_int (ftrunc F (limit_pm F limit v))"

definition TrySample :: "'f float_ops \<Rightarrow> u32 \<Rightarrow> int \<Rightarrow> 'f sketch \<Rightarrow> 'f sketch" where
  "TrySample F now raw s =
     (if \<not> ExperimentRunning s then s
      else if now < NextSampleAtMs s then s
      else if uint (SampleCount s) \<ge> MaxSamples then s
      else
        let err = signed_err (PotFiltered s) s;
            t = (ucast (now - ExperimentStartMs s) :: u16);
            n = unat (SampleCount s);
            uP = fmul F (KpUsPerCount s) (frnd F (of_int err));
            uI = IntUs s;
            uD = fmul F (fneg F (KdUsPerCountPerSec s)) (DerivFilt s);
            limUs = 2000
        in s\<lparr>Tms := (Tms s)(n := t),
              AdcRaw := (AdcRaw s)(n := word_of_int (ClampInt raw 0 1023)),
              AdcFilt := (AdcFilt s)(n := word_of_int (ClampInt (PotFiltered s) 0 1023)),
              AdcErr := (AdcErr s)(n := word_of_int (ClampInt err (- 32768) 32767)),
              PUs := (PUs s)(n := clamp16 F uP limUs),
              IUs := (IUs s)(n := clamp16 F uI limUs),
              DUs := (DUs s)(n := clamp16 F uD limUs),
              SampleCount := SampleCount s + 1,
              NextSampleAtMs := NextSampleAtMs s + ucast SamplePeriodMs\<rparr>)"

subsection \<open>HTTP handlers\<close>

record 'f state_reply =
  r_running :: bool
  r_remain_ms :: int
  r_kp :: 'f
  r_ki :: 'f
  r_kd :: 'f
  r_invert :: bool
  r_adc :: int
  r_err :: int
  r_m1 :: int
  r_m2 :: int

record data_reply =
  d_count :: u16
  d_dt_ms :: u16
  d_t :: "u16 list"
  d_adc_raw :: "u16 list"
  d_adc_filt :: "u16 list"
  d_err :: "i16 list"
  d_p :: "i16 list"
  d_i :: "i16 list"
  d_d :: "i16 list"

datatype 'f response =
    Page
  | Ok
  | AlreadyRunning
  | Started
  | NoData
  | StateJson "'f state_reply"
  | DataJson data_reply

text \<open>
  \<^verbatim>\<open>HandleState\<close> prints the gains with \<^verbatim>\<open>String(x, 3)\<close> and \<^verbatim>\<open>String(x, 4)\<close>; the
  reply of the model carries the values themselves.
\<close>

definition HandleState :: "'f env \<Rightarrow> 'f sketch \<Rightarrow> 'f response \<times> 'f sketch" where
  "HandleState e s =
     (let adc = raw_web e;
          err = signed_err (PotFiltered s) s;
          remain0 = (if ExperimentRunning s then sint (ExperimentEndMs s - now_web e) else 0);
          remain = (if remain0 < 0 then 0 else remain0)
      in (StateJson \<lparr> r_running = ExperimentRunning s, r_remain_ms = remain,
            r_kp = KpUsPerCount s, r_ki = KiUsPerCountSec s, r_kd = KdUsPerCountPerSec s,
            r_invert = InvertDirection s, r_adc = adc, r_err = err,
            r_m1 = CmdUs1 s, r_m2 = CmdUs2 s \<rparr>, s))"

text \<open>
  \<^verbatim>\<open>HandleSet\<close>: each argument is optional; \<open>kp\<close>, \<open>ki\<close>, \<open>kd\<close> are the values of
  \<^verbatim>\<open>toFloat()\<close>, which can be any float, and \<open>invert\<close> the value of \<^verbatim>\<open>toInt()\<close>.
\<close>

definition HandleSet ::
  "'f float_ops \<Rightarrow> 'f option \<Rightarrow> 'f option \<Rightarrow> 'f option \<Rightarrow> int option \<Rightarrow> 'f sketch
     \<Rightarrow> 'f response \<times> 'f sketch" where
  "HandleSet F kp ki kd invert s =
     (let s1 = (case kp of None \<Rightarrow> s
                | Some v \<Rightarrow> s\<lparr>KpUsPerCount := constrain F v (frnd F 0) (frnd F 5)\<rparr>);
          s2 = (case ki of None \<Rightarrow> s1
                | Some v \<Rightarrow> s1\<lparr>KiUsPerCountSec := constrain F v (frnd F 0) (frnd F 1)\<rparr>);
          s3 = (case kd of None \<Rightarrow> s2
                | Some v \<Rightarrow> s2\<lparr>KdUsPerCountPerSec := constrain F v (frnd F 0) (frnd F 2)\<rparr>);
          s4 = (case invert of None \<Rightarrow> s3 | Some v \<Rightarrow> s3\<lparr>InvertDirection := (v \<noteq> 0)\<rparr>)
      in (Ok, s4))"

definition HandleStart :: "'f float_ops \<Rightarrow> 'f env \<Rightarrow> 'f sketch \<Rightarrow> 'f response \<times> 'f sketch" where
  "HandleStart F e s =
     (if ExperimentRunning s then (AlreadyRunning, s)
      else
        let s1 = s\<lparr>IntUs := frnd F 0, DerivFilt := frnd F 0, LastTsMs := now_web e\<rparr>;
            s2 = s1\<lparr>SampleCount := 0, SamplesReady := False,
                    ExperimentStartMs := now_start e, NextSampleAtMs := now_start e\<rparr>;
            s3 = SlewBothTo BaseUs BaseUs s2;
            s4 = s3\<lparr>ExperimentRunning := True,
                    ExperimentEndMs := now_armed e + ExperimentDurationMs\<rparr>
        in (Started, s4))"

text \<open>\<^verbatim>\<open>HandleStart\<close> of the predecessor sketch (lines 347 to 369): no sampling reset.\<close>

definition HandleStart_ui :: "'f float_ops \<Rightarrow> 'f env \<Rightarrow> 'f sketch \<Rightarrow> 'f response \<times> 'f sketch" where
  "HandleStart_ui F e s =
     (if ExperimentRunning s then (AlreadyRunning, s)
      else
        let s1 = s\<lparr>IntUs := frnd F 0, DerivFilt := frnd F 0, LastTsMs := now_web e\<rparr>;
            s3 = SlewBothTo BaseUs BaseUs s1;
            s4 = s3\<lparr>ExperimentRunning := True,
                    ExperimentEndMs := now_armed e + ExperimentDurationMs\<rparr>
        in (Started, s4))"

definition served :: "(nat \<Rightarrow> 'a) \<Rightarrow> 'f sketch \<Rightarrow> 'a list" where
  "served a s = map a [0 ..< unat (SampleCount s)]"

definition HandleData :: "'f sketch \<Rightarrow> 'f response \<times> 'f sketch" where
  "HandleData s =
     (if \<not> SamplesReady s \<or> SampleCount s = 0 then (NoData, s)
      else (DataJson \<lparr> d_count = SampleCount s, d_dt_ms = SamplePeriodMs,
              d_t = served (Tms s) s, d_adc_raw = served (AdcRaw s) s,
              d_adc_filt = served (AdcFilt s) s, d_err = served (AdcErr s) s,
              d_p = served (PUs s) s, d_i = served (IUs s) s, d_d = served (DUs s) s \<rparr>, s))"

fun dispatch :: "'f float_ops \<Rightarrow> 'f request \<Rightarrow> 'f env \<Rightarrow> 'f sketch \<Rightarrow> 'f response \<times> 'f sketch" where
  "dispatch F GetRoot e s = (Page, s)"
| "dispatch F GetState e s = HandleState e s"
| "dispatch F (GetSet kp ki kd invert) e s = HandleSet F kp ki kd invert s"
| "dispatch F GetStart e s = HandleStart F e s"
| "dispatch F GetData e s = HandleData s"

definition ServiceWeb :: "'f float_ops \<Rightarrow> 'f env \<Rightarrow> 'f sketch \<Rightarrow> 'f sketch" where
  "ServiceWeb F e s = (case web e of None \<Rightarrow> s | Some r \<Rightarrow> snd (dispatch F r e s))"

subsection \<open>The main loop\<close>

text \<open>
  One iteration of \<^verbatim>\<open>loop\<close>. While idle it serves the web, then parks the outputs.
  While running it does the PID step, samples, and ends the run once the clock has
  reached \<^verbatim>\<open>ExperimentEndMs\<close> (a signed comparison of the wrapped difference).
\<close>

definition loop :: "'f float_ops \<Rightarrow> 'f env \<Rightarrow> 'f sketch \<Rightarrow> 'f sketch" where
  "loop F e s =
     (if \<not> ExperimentRunning s then HoldEscMin (ServiceWeb F e s)
      else
        let s1 = ControlStepPID F (raw_pid e) (now_pid e) s;
            s2 = TrySample F (now_sample e) (raw_sample e) s1
        in if sint (now_end e - ExperimentEndMs s2) \<ge> 0
           then (HoldEscMin (s2\<lparr>ExperimentRunning := False\<rparr>))\<lparr>SamplesReady := True\<rparr>
           else s2)"

fun run :: "'f float_ops \<Rightarrow> 'f env list \<Rightarrow> 'f sketch \<Rightarrow> 'f sketch" where
  "run F [] s = s"
| "run F (e # es) s = run F es (loop F e s)"

subsection \<open>The balance sketch\<close>

text \<open>
  The constants shared with the experiment sketch have the same values there
  (\<open>PulseMinUs\<close>, \<open>PulseMaxUs\<close>, \<open>BaseUs\<close>, \<open>DeltaMaxUs\<close>, \<open>SlewStepUs\<close>, \<open>PotCenter\<close>,
  \<open>PotAlpha\<close>, \<open>DAlpha\<close>, \<open>IntegralMaxUs\<close>, \<open>LoopDtMs\<close>). The gains and the direction
  flag are never assigned in this sketch, so they are constants here.
\<close>

definition CalMinUs :: int where "CalMinUs = 800"
definition CalMaxUs :: int where "CalMaxUs = 2300"
definition KpUsPerCount_bal :: "'f float_ops \<Rightarrow> 'f" where "KpUsPerCount_bal F = frnd F 0.25"
definition KiUsPerCountSec_bal :: "'f float_ops \<Rightarrow> 'f" where "KiUsPerCountSec_bal F = frnd F 0.1"
definition KdUsPerCountPerSec_bal :: "'f float_ops \<Rightarrow> 'f" where
  "KdUsPerCountPerSec_bal F = frnd F 0.1"
definition InvertDirection_bal :: bool where "InvertDirection_bal = False"

record 'f balance =
  PotFiltered_bal :: int
  IntUs_bal :: 'f
  DerivFilt_bal :: 'f
  LastPotFilt_bal :: int
  LastTsMs_bal :: u32
  CmdUs1_bal :: int
  CmdUs2_bal :: int
  Esc1_bal :: "int list"
  Esc2_bal :: "int list"

definition boot_bal :: "'f float_ops \<Rightarrow> 'f balance" where
  "boot_bal F = \<lparr> PotFiltered_bal = PotCenter, IntUs_bal = frnd F 0, DerivFilt_bal = frnd F 0,
      LastPotFilt_bal = PotCenter, LastTsMs_bal = 0, CmdUs1_bal = CalMinUs,
      CmdUs2_bal = CalMinUs, Esc1_bal = [], Esc2_bal = [] \<rparr>"

definition writeEsc_bal :: "'f balance \<Rightarrow> 'f balance" where
  "writeEsc_bal s = s\<lparr>Esc1_bal := CmdUs1_bal s # Esc1_bal s, Esc2_bal := CmdUs2_bal s # Esc2_bal s\<rparr>"

definition SlewBothTo_bal :: "int \<Rightarrow> int \<Rightarrow> 'f balance \<Rightarrow> 'f balance" where
  "SlewBothTo_bal target1 target2 s =
     (let ws = SlewLoop (ClampInt target1 PulseMinUs PulseMaxUs)
                        (ClampInt target2 PulseMinUs PulseMaxUs) (CmdUs1_bal s) (CmdUs2_bal s)
      in s\<lparr>CmdUs1_bal := fst (last ws), CmdUs2_bal := snd (last ws),
            Esc1_bal := rev (map fst ws) @ Esc1_bal s,
            Esc2_bal := rev (map snd ws) @ Esc2_bal s\<rparr>)"

definition CalibrateBothMaxMin_bal :: "'f balance \<Rightarrow> 'f balance" where
  "CalibrateBothMaxMin_bal s =
     writeEsc_bal ((writeEsc_bal (s\<lparr>CmdUs1_bal := CalMaxUs, CmdUs2_bal := CalMaxUs\<rparr>))
       \<lparr>CmdUs1_bal := CalMinUs, CmdUs2_bal := CalMinUs\<rparr>)"

text \<open>\<^verbatim>\<open>setup\<close> of the balance sketch; \<open>now\<close> is its reading of \<^verbatim>\<open>millis\<close>.\<close>

definition setup_bal :: "'f float_ops \<Rightarrow> u32 \<Rightarrow> 'f balance \<Rightarrow> 'f balance" where
  "setup_bal F now s =
     (SlewBothTo_bal BaseUs BaseUs (CalibrateBothMaxMin_bal s))
       \<lparr>PotFiltered_bal := PotCenter, LastPotFilt_bal := PotCenter, DerivFilt_bal := frnd F 0,
        IntUs_bal := frnd F 0, LastTsMs_bal := now\<rparr>"

text \<open>
  The first half of \<^verbatim>\<open>ControlStepPID\<close> of the balance sketch, up to the partial output
  \<^verbatim>\<open>uNoI\<close>: the time step, the filtered measurement, the error, the filtered derivative
  and \<^verbatim>\<open>uNoI = pUs + dUs\<close>. Then \<open>accum_bal\<close>, the body of \<^verbatim>\<open>if (allowIntegrate)\<close>.
\<close>

definition dt_bal :: "'f float_ops \<Rightarrow> u32 \<Rightarrow> 'f balance \<Rightarrow> 'f" where
  "dt_bal F now s =
     (let dt = (if LastTsMs_bal s = 0 then fmul F (frnd F (of_int LoopDtMs)) (frnd F 0.001)
                else fmul F (frnd F (real (unat (now - LastTsMs_bal s)))) (frnd F 0.001))
      in if flt F dt (frnd F 0.001) then frnd F 0.001 else dt)"

definition filt_bal :: "'f float_ops \<Rightarrow> int \<Rightarrow> 'f balance \<Rightarrow> int" where
  "filt_bal F raw s =
     ftrunc F (froundf F (fadd F (frnd F (of_int (PotFiltered_bal s)))
                 (fmul F (PotAlpha F) (frnd F (of_int (raw - PotFiltered_bal s))))))"

definition error_bal :: "'f float_ops \<Rightarrow> int \<Rightarrow> 'f balance \<Rightarrow> int" where
  "error_bal F raw s =
     (let error = PotCenter - filt_bal F raw s
      in if InvertDirection_bal then - error else error)"

definition deriv_bal :: "'f float_ops \<Rightarrow> int \<Rightarrow> u32 \<Rightarrow> 'f balance \<Rightarrow> 'f" where
  "deriv_bal F raw now s =
     (let dCounts = frnd F (of_int (filt_bal F raw s - LastPotFilt_bal s));
          dMeasPerSec = fdiv F dCounts (dt_bal F now s)
      in fadd F (fmul F (fsub F (frnd F 1) (DAlpha F)) (DerivFilt_bal s))
                (fmul F (DAlpha F) dMeasPerSec))"

definition uNoI_bal :: "'f float_ops \<Rightarrow> int \<Rightarrow> u32 \<Rightarrow> 'f balance \<Rightarrow> 'f" where
  "uNoI_bal F raw now s =
     (let pUs = fmul F (KpUsPerCount_bal F) (frnd F (of_int (error_bal F raw s)));
          dUs = fmul F (fneg F (KdUsPerCountPerSec_bal F)) (deriv_bal F raw now s)
      in fadd F pUs dUs)"

definition accum_bal :: "'f float_ops \<Rightarrow> int \<Rightarrow> u32 \<Rightarrow> 'f balance \<Rightarrow> 'f" where
  "accum_bal F raw now s =
     limit_pm F IntegralMaxUs
       (fadd F (IntUs_bal s)
          (fmul F (fmul F (KiUsPerCountSec_bal F) (frnd F (of_int (error_bal F raw s))))
                  (dt_bal F now s)))"

definition ControlStepPID_bal :: "'f float_ops \<Rightarrow> int \<Rightarrow> u32 \<Rightarrow> 'f balance \<Rightarrow> 'f balance" where
  "ControlStepPID_bal F raw now s =
     (let pf = filt_bal F raw s;
          df = deriv_bal F raw now s;
          uNoI = uNoI_bal F raw now s;
          allowIntegrate = flt F (ffabs F uNoI) (frnd F (of_int (DeltaMaxUs - 5)));
          iu = (if allowIntegrate then accum_bal F raw now s else IntUs_bal s);
          u = fadd F uNoI iu;
          deltaUs = ClampInt (ftrunc F (froundf F u)) (- DeltaMaxUs) DeltaMaxUs;
          target1 = ClampInt (BaseUs + deltaUs) PulseMinUs PulseMaxUs;
          target2 = ClampInt (BaseUs - deltaUs) PulseMinUs PulseMaxUs;
          step1 = ClampInt (target1 - CmdUs1_bal s) (- SlewStepUs) SlewStepUs;
          step2 = ClampInt (target2 - CmdUs2_bal s) (- SlewStepUs) SlewStepUs
      in (writeEsc_bal (s\<lparr>LastTsMs_bal := now, PotFiltered_bal := pf, DerivFilt_bal := df,
            IntUs_bal := iu, CmdUs1_bal := CmdUs1_bal s + step1,
            CmdUs2_bal := CmdUs2_bal s + step2\<rparr>))\<lparr>LastPotFilt_bal := pf\<rparr>)"

text \<open>
  \<^verbatim>\<open>loop\<close> of the balance sketch: \<open>raw0\<close> is the reading of the quick sensor check,
  \<open>raw\<close> and \<open>now\<close> the readings inside \<^verbatim>\<open>ControlStepPID\<close>. Out of range, the
  minimum is written to both ESCs and the command variables are left alone.
\<close>

definition loop_bal :: "'f float_ops \<Rightarrow> int \<Rightarrow> int \<Rightarrow> u32 \<Rightarrow> 'f balance \<Rightarrow> 'f balance" where
  "loop_bal F raw0 raw now s =
     (if raw0 < 300 \<or> raw0 > 900
      then s\<lparr>Esc1_bal := PulseMinUs # Esc1_bal s, Esc2_bal := PulseMinUs # Esc2_bal s\<rparr>
      else ControlStepPID_bal F raw now s)"

fun run_bal :: "'f float_ops \<Rightarrow> (int \<times> int \<times> u32) list \<Rightarrow> 'f balance \<Rightarrow> 'f balance" where
  "run_bal F [] s = s"
| "run_bal F ((raw0, raw, now) # es) s = run_bal F es (loop_bal F raw0 raw now s)"

subsection \<open>Concrete inputs\<close>

text \<open>
  An iteration with no pending request and all readings zero, and the iteration that
  serves a start request 30 s after boot, the slew taking 390 ms. \<open>armed\<close> is the
  experiment sketch after \<^verbatim>\<open>setup\<close>, \<open>started\<close> its state after the iteration that
  served the start request; both in the arithmetic \<open>ideal\<close>, as every concrete state
  below.
\<close>

definition quiet :: "'f env" where
  "quiet = \<lparr> web = None, raw_web = 0, now_web = 0, now_start = 0, now_armed = 0,
      raw_pid = 0, now_pid = 0, now_sample = 0, raw_sample = 0, now_end = 0 \<rparr>"

definition start_req :: "'f env" where
  "start_req = quiet\<lparr>web := Some GetStart, now_web := 30000, now_start := 30000,
      now_armed := 30390\<rparr>"

definition armed :: "fl sketch" where
  "armed = setup_exp (boot ideal)"

definition started :: "fl sketch" where
  "started = loop ideal start_req armed"

text \<open>
  Three iterations of a run begun by \<open>start_req\<close>: two with the arm at the setpoint,
  then one with the sensor out of range (its \<^verbatim>\<open>delay(200)\<close> shows in the later
  readings). \<open>bad_start\<close> is the start request served while the sensor reads 200.
\<close>

definition tick_a :: "'f env" where
  "tick_a = quiet\<lparr>raw_pid := 660, now_pid := 30405, now_sample := 30405, raw_sample := 660,
      now_end := 30405\<rparr>"

definition tick_b :: "'f env" where
  "tick_b = quiet\<lparr>raw_pid := 660, now_pid := 30415, now_sample := 30415, raw_sample := 660,
      now_end := 30415\<rparr>"

definition tick_bad :: "'f env" where
  "tick_bad = quiet\<lparr>raw_pid := 200, now_pid := 30425, now_sample := 30625, raw_sample := 200,
      now_end := 30625\<rparr>"

definition bad_start :: "'f env" where
  "bad_start = start_req\<lparr>raw_web := 200, raw_pid := 200, raw_sample := 200\<rparr>"

text \<open>
  A run started after Kp was set to its upper bound 5 and Ki to 0.5, and its first control
  step, 500 ms after the start request was served, with the arm 60 counts off the setpoint
  (the accumulated value, 0.5 * 60 * 0.5 = 15, involves no rounding). For the balance sketch: \<open>armed_bal\<close> is the state after
  \<^verbatim>\<open>setup\<close>, \<open>jolted\<close> the state after one control step in which the measurement jumped
  from 660 to 900.
\<close>

definition tune5 :: "fl env" where
  "tune5 = quiet\<lparr>web := Some (GetSet (Some (Fin 5)) (Some (Fin (1/2))) None None)\<rparr>"

definition started5 :: "fl sketch" where
  "started5 = run ideal [tune5, start_req] armed"

definition tick_off :: "'f env" where
  "tick_off = quiet\<lparr>raw_pid := 600, now_pid := 30500, now_sample := 30500, raw_sample := 600,
      now_end := 30500\<rparr>"

definition armed_bal :: "fl balance" where
  "armed_bal = setup_bal ideal 21000 (boot_bal ideal)"

definition jolted :: "fl balance" where
  "jolted = loop_bal ideal 900 900 21010 armed_bal"

text \<open>
  Requests that carry a NaN: \<^verbatim>\<open>/set?kp=nan\<close> and \<^verbatim>\<open>/set?ki=nan\<close>, for which
  \<^verbatim>\<open>toFloat()\<close> returns NaN. \<open>started_nan\<close> is the run started after the second one.
\<close>

definition set_kp_nan :: "fl request" where
  "set_kp_nan = GetSet (Some NaN) None None None"

definition tune_nan :: "fl env" where
  "tune_nan = quiet\<lparr>web := Some (GetSet None (Some NaN) None None)\<rparr>"

definition started_nan :: "fl sketch" where
  "started_nan = run ideal [tune_nan, start_req] armed"

text \<open>
  Adjacent values of a list of pulse widths written to one ESC differ by at most
  \<open>SlewStepUs\<close>.
\<close>

fun slew_ok :: "int list \<Rightarrow> bool" where
  "slew_ok (x # y # zs) = (\<bar>y - x\<bar> \<le> SlewStepUs \<and> slew_ok (y # zs))"
| "slew_ok zs = True"

text \<open>
  \<open>synced\<close>: the last pulse width written to each ESC is the value of its command
  variable, and both are parked at the minimum unless an experiment is running. It holds
  in every state the experiment sketch reaches after \<^verbatim>\<open>setup\<close>.
\<close>

definition synced :: "'f sketch \<Rightarrow> bool" where
  "synced s \<longleftrightarrow> Esc1 s \<noteq> [] \<and> Esc2 s \<noteq> [] \<and> hd (Esc1 s) = CmdUs1 s \<and> hd (Esc2 s) = CmdUs2 s
     \<and> (ExperimentRunning s \<or> (CmdUs1 s = PulseMinUs \<and> CmdUs2 s = PulseMinUs))"

text \<open>
  A stretch of a run with the arm held at the setpoint: \<open>ticks n t\<close> are the readings of
  \<open>n\<close> loop iterations 10 ms apart from clock reading \<open>t\<close> on, \<open>steady n t\<close> runs them,
  \<open>before_end\<close> says that none of them reaches the end of the run, and \<open>approach\<close>
  follows one command towards 1250. \<open>settled\<close> is the run \<open>started\<close> after 38 such
  iterations, \<open>rising\<close> after 37 of them; \<open>tick_lean\<close>, \<open>tick_fault\<close> and \<open>tick_last\<close>
  are possible next iterations: with the arm 60 counts off, with the sensor out of range,
  and with the arm at the setpoint.
\<close>

definition centred :: "u32 \<Rightarrow> 'f env" where
  "centred t = quiet\<lparr>raw_pid := 660, now_pid := t, now_sample := t, raw_sample := 660, now_end := t\<rparr>"

fun ticks :: "nat \<Rightarrow> u32 \<Rightarrow> 'f env list" where
  "ticks 0 t = []"
| "ticks (Suc n) t = centred t # ticks n (t + 10)"

fun steady :: "nat \<Rightarrow> u32 \<Rightarrow> fl sketch \<Rightarrow> fl sketch" where
  "steady 0 t s = s"
| "steady (Suc n) t s = steady n (t + 10) (loop ideal (centred t) s)"

fun before_end :: "nat \<Rightarrow> u32 \<Rightarrow> u32 \<Rightarrow> bool" where
  "before_end 0 t end = True"
| "before_end (Suc n) t end = (sint (t - end) < 0 \<and> before_end n (t + 10) end)"

fun approach :: "nat \<Rightarrow> int \<Rightarrow> int" where
  "approach 0 c = c"
| "approach (Suc n) c = approach n (c + ClampInt (1250 - c) (- SlewStepUs) SlewStepUs)"

definition at_rest :: "int \<Rightarrow> fl sketch \<Rightarrow> bool" where
  "at_rest c s \<longleftrightarrow> ExperimentRunning s \<and> (PotFiltered s = 0 \<or> PotFiltered s = 660)
     \<and> (lastY s = 0 \<or> lastY s = 660) \<and> IntUs s = Fin 0 \<and> DerivFilt s = Fin 0
     \<and> KpUsPerCount s = Fin (1/4) \<and> KiUsPerCountSec s = Fin (1/10)
     \<and> KdUsPerCountPerSec s = Fin (1/10) \<and> CmdUs1 s = c \<and> CmdUs2 s = c"

definition settled :: "fl sketch" where
  "settled = steady 38 30405 started"

definition rising :: "fl sketch" where
  "rising = steady 37 30405 started"

definition tick_fault :: "'f env" where
  "tick_fault = quiet\<lparr>raw_pid := 200, now_pid := 30785, now_sample := 30985, raw_sample := 200,
      now_end := 30985\<rparr>"

definition tick_lean :: "'f env" where
  "tick_lean = quiet\<lparr>raw_pid := 600, now_pid := 30785, now_sample := 30785, raw_sample := 600,
      now_end := 30785\<rparr>"

text \<open>
  The invariant behind the order of the samples: the count never passes \<open>MaxSamples\<close>,
  the recorded offsets are strictly increasing, and all of them are below \<open>b\<close>.
  \<open>sampled3\<close> is the run \<open>started\<close> after three iterations.
\<close>

definition sample_inv :: "nat \<Rightarrow> 'f sketch \<Rightarrow> bool" where
  "sample_inv b s \<longleftrightarrow> uint (SampleCount s) \<le> MaxSamples
     \<and> sorted_wrt (<) (map unat (served (Tms s) s))
     \<and> (\<forall>x \<in> set (served (Tms s) s). unat x < b)"

definition sampled3 :: "fl sketch" where
  "sampled3 = run ideal [tick_a, tick_b, tick_bad] started"

text \<open>
  A whole run with the arm at the setpoint: \<open>nearly\<close> is the run \<open>started\<close> after 1999
  iterations 10 ms apart, \<open>finished\<close> the state after the next one, whose clock reading
  50395 is past \<open>ExperimentEndMs = 50390\<close>. \<open>tally\<close> follows the sample count, the
  next sampling time and the last recorded offset over such iterations, and \<open>sampling\<close>
  says that a state has these values.
\<close>

fun tally :: "nat \<Rightarrow> u32 \<Rightarrow> u16 \<times> u32 \<times> u16 \<Rightarrow> u16 \<times> u32 \<times> u16" where
  "tally 0 t x = x"
| "tally (Suc n) t (c, nx, lt) =
     tally n (t + 10)
       (if t < nx \<or> uint c \<ge> MaxSamples then (c, nx, lt)
        else (c + 1, nx + 50, ucast (t - 30000)))"

definition sampling :: "u16 \<times> u32 \<times> u16 \<Rightarrow> 'f sketch \<Rightarrow> bool" where
  "sampling x s \<longleftrightarrow>
     (case x of (c, nx, lt) \<Rightarrow> ExperimentStartMs s = 30000 \<and> SampleCount s = c
        \<and> NextSampleAtMs s = nx \<and> Tms s (unat c - 1) = lt)"

definition nearly :: "fl sketch" where
  "nearly = steady 1999 30405 started"

definition finished :: "fl sketch" where
  "finished = loop ideal (centred 50395) nearly"

section \<open>Basic facts\<close>

lemma ideal_simps [simp]:
  "frnd ideal = Fin" "fadd ideal = fl_add" "fsub ideal = fl_sub" "fmul ideal = fl_mul"
  "fdiv ideal = fl_div" "fneg ideal = fl_neg" "flt ideal = fl_lt" "fle ideal = fl_le"
  "ftrunc ideal = fl_trunc" "froundf ideal = fl_roundf" "ffabs ideal = fl_fabs"
  by (simp_all add: ideal_def)

lemma ExperimentRunning_HoldEscMin [simp]:
  "ExperimentRunning (HoldEscMin s) = ExperimentRunning s"
  by (simp add: HoldEscMin_def writeEsc_def)

lemma ExperimentRunning_SlewBothTo [simp]:
  "ExperimentRunning (SlewBothTo a b s) = ExperimentRunning s"
  by (simp add: SlewBothTo_def Let_def)

lemma armed_idle: "\<not> ExperimentRunning armed"
  by (simp add: armed_def setup_exp_def CalibrateBothMaxMin_def boot_def)

lemma started_running: "ExperimentRunning started"
  using armed_idle
  by (simp add: started_def loop_def ServiceWeb_def start_req_def quiet_def
      HandleStart_def Let_def)

lemma run_append: "run F (es @ es') s = run F es' (run F es s)"
  by (induction es arbitrary: s) simp_all

subsection \<open>Frame of the handlers and of the steps\<close>

lemma IntUs_TrySample [simp]: "IntUs (TrySample F now raw s) = IntUs s"
  by (simp add: TrySample_def Let_def)

lemma IntUs_HoldEscMin [simp]: "IntUs (HoldEscMin s) = IntUs s"
  by (simp add: HoldEscMin_def writeEsc_def)

lemma frame_dispatch:
  assumes "r \<noteq> GetStart"
  shows "IntUs (snd (dispatch F r e s)) = IntUs s
     \<and> DerivFilt (snd (dispatch F r e s)) = DerivFilt s
     \<and> LastTsMs (snd (dispatch F r e s)) = LastTsMs s"
  using assms
  by (cases r)
     (simp_all add: HandleState_def HandleSet_def HandleData_def Let_def split: option.splits)

lemma PotFiltered_dispatch: "PotFiltered (snd (dispatch F r e s)) = PotFiltered s"
  by (cases r)
     (simp_all add: HandleState_def HandleSet_def HandleData_def HandleStart_def SlewBothTo_def
        Let_def split: option.splits)

lemma frame_cmd_dispatch:
  assumes "r \<noteq> GetStart"
  shows "CmdUs1 (snd (dispatch F r e s)) = CmdUs1 s \<and> CmdUs2 (snd (dispatch F r e s)) = CmdUs2 s
     \<and> Esc1 (snd (dispatch F r e s)) = Esc1 s \<and> Esc2 (snd (dispatch F r e s)) = Esc2 s
     \<and> ExperimentRunning (snd (dispatch F r e s)) = ExperimentRunning s"
  using assms
  by (cases r)
     (simp_all add: HandleState_def HandleSet_def HandleData_def Let_def split: option.splits)

lemma TrySample_frame [simp]:
  "CmdUs1 (TrySample F now raw s) = CmdUs1 s" "CmdUs2 (TrySample F now raw s) = CmdUs2 s"
  "Esc1 (TrySample F now raw s) = Esc1 s" "Esc2 (TrySample F now raw s) = Esc2 s"
  "ExperimentRunning (TrySample F now raw s) = ExperimentRunning s"
  "ExperimentEndMs (TrySample F now raw s) = ExperimentEndMs s"
  "PotFiltered (TrySample F now raw s) = PotFiltered s"
  "lastY (TrySample F now raw s) = lastY s"
  "DerivFilt (TrySample F now raw s) = DerivFilt s"
  "KpUsPerCount (TrySample F now raw s) = KpUsPerCount s"
  "KiUsPerCountSec (TrySample F now raw s) = KiUsPerCountSec s"
  "KdUsPerCountPerSec (TrySample F now raw s) = KdUsPerCountPerSec s"
  by (simp_all add: TrySample_def Let_def)

lemma ControlStepPID_frame [simp]:
  "ExperimentRunning (ControlStepPID F raw now s) = ExperimentRunning s"
  "ExperimentEndMs (ControlStepPID F raw now s) = ExperimentEndMs s"
  "KpUsPerCount (ControlStepPID F raw now s) = KpUsPerCount s"
  "KiUsPerCountSec (ControlStepPID F raw now s) = KiUsPerCountSec s"
  "KdUsPerCountPerSec (ControlStepPID F raw now s) = KdUsPerCountPerSec s"
  by (simp_all add: ControlStepPID_def HoldEscMin_def writeEsc_def Let_def)

subsection \<open>Slewing\<close>

lemma SlewLoop_ne: "SlewLoop t1 t2 c1 c2 \<noteq> []"
  by (subst SlewLoop.simps) simp

lemma last_SlewLoop: "last (SlewLoop t1 t2 c1 c2) = (t1, t2)"
  by (induction t1 t2 c1 c2 rule: SlewLoop.induct)
     (subst SlewLoop.simps, auto simp: SlewLoop_ne)

lemma CmdUs_SlewBothTo:
  "CmdUs1 (SlewBothTo t1 t2 s) = ClampInt t1 PulseMinUs PulseMaxUs"
  "CmdUs2 (SlewBothTo t1 t2 s) = ClampInt t2 PulseMinUs PulseMaxUs"
  by (simp_all add: SlewBothTo_def Let_def last_SlewLoop)

lemma CmdUs_SlewBothTo_bal:
  "CmdUs1_bal (SlewBothTo_bal t1 t2 s) = ClampInt t1 PulseMinUs PulseMaxUs"
  "CmdUs2_bal (SlewBothTo_bal t1 t2 s) = ClampInt t2 PulseMinUs PulseMaxUs"
  by (simp_all add: SlewBothTo_bal_def Let_def last_SlewLoop)

lemma ClampInt_base: "ClampInt BaseUs PulseMinUs PulseMaxUs = BaseUs"
  by (simp add: ClampInt_def BaseUs_def PulseMinUs_def PulseMaxUs_def)

lemma ClampInt_step: "\<bar>ClampInt v (- SlewStepUs) SlewStepUs\<bar> \<le> SlewStepUs"
  by (auto simp: ClampInt_def SlewStepUs_def)

lemma ClampInt_odd: "ClampInt (- v) (- SlewStepUs) SlewStepUs = - ClampInt v (- SlewStepUs) SlewStepUs"
  by (simp add: ClampInt_def SlewStepUs_def)

lemma ClampInt_near: "\<bar>v\<bar> \<le> SlewStepUs \<Longrightarrow> ClampInt v (- SlewStepUs) SlewStepUs = v"
  by (auto simp: ClampInt_def)

lemma ClampInt_delta:
  assumes "\<bar>d\<bar> \<le> DeltaMaxUs"
  shows "ClampInt (BaseUs + d) PulseMinUs PulseMaxUs = BaseUs + d"
    "ClampInt (BaseUs - d) PulseMinUs PulseMaxUs = BaseUs - d"
  using assms
  by (auto simp: ClampInt_def DeltaMaxUs_def BaseUs_def PulseMinUs_def PulseMaxUs_def)

lemma to_int_abs: "\<bar>x\<bar> \<le> of_int m \<Longrightarrow> \<bar>to_int x\<bar> \<le> m"
  unfolding to_int_def by (auto simp: abs_le_iff floor_le_iff le_floor_iff ceiling_le_iff le_ceiling_iff) linarith+

lemma slew_ok_SlewLoop:
  "slew_ok (c1 # map fst (SlewLoop t1 t2 c1 c2)) \<and> slew_ok (c2 # map snd (SlewLoop t1 t2 c1 c2))"
proof (induction t1 t2 c1 c2 rule: SlewLoop.induct)
  case (1 t1 t2 c1 c2)
  show ?case
  proof (cases "c1 = t1 \<and> c2 = t2")
    case True
    then show ?thesis by (subst (1 2) SlewLoop.simps) (simp add: SlewStepUs_def)
  next
    case False
    with 1 show ?thesis
      using ClampInt_step [of "t1 - c1"] ClampInt_step [of "t2 - c2"]
      by (subst (1 2) SlewLoop.simps) (auto simp: SlewStepUs_def)
  qed
qed

lemma running_step:
  assumes "ExperimentRunning s" "PotMinSafe \<le> raw_pid e" "raw_pid e \<le> PotMaxSafe"
      "sint (now_end e - ExperimentEndMs s) < 0"
  shows "Esc1 (loop F e s) = CmdUs1 (loop F e s) # Esc1 s"
    "Esc2 (loop F e s) = CmdUs2 (loop F e s) # Esc2 s"
    "CmdUs1 (loop F e s) = CmdUs1 s + ClampInt (ClampInt (BaseUs + ftrunc F (uDiff F (raw_pid e) (now_pid e) s)) PulseMinUs PulseMaxUs - CmdUs1 s) (- SlewStepUs) SlewStepUs"
    "CmdUs2 (loop F e s) = CmdUs2 s + ClampInt (ClampInt (BaseUs - ftrunc F (uDiff F (raw_pid e) (now_pid e) s)) PulseMinUs PulseMaxUs - CmdUs2 s) (- SlewStepUs) SlewStepUs"
    "ExperimentRunning (loop F e s)"
  using assms by (simp_all add: loop_def Let_def ControlStepPID_def writeEsc_def)

lemma ending_step:
  assumes "ExperimentRunning s" "PotMinSafe \<le> raw_pid e" "raw_pid e \<le> PotMaxSafe"
      "0 \<le> sint (now_end e - ExperimentEndMs s)"
  shows "Esc1 (loop F e s) = PulseMinUs # (CmdUs1 s + ClampInt (ClampInt (BaseUs + ftrunc F (uDiff F (raw_pid e) (now_pid e) s)) PulseMinUs PulseMaxUs - CmdUs1 s) (- SlewStepUs) SlewStepUs) # Esc1 s"
    "Esc2 (loop F e s) = PulseMinUs # (CmdUs2 s + ClampInt (ClampInt (BaseUs - ftrunc F (uDiff F (raw_pid e) (now_pid e) s)) PulseMinUs PulseMaxUs - CmdUs2 s) (- SlewStepUs) SlewStepUs) # Esc2 s"
  using assms by (simp_all add: loop_def Let_def ControlStepPID_def writeEsc_def HoldEscMin_def)

subsection \<open>The last write and the command variables\<close>

lemma synced_HoldEscMin: "synced (HoldEscMin s)"
  by (simp add: synced_def HoldEscMin_def writeEsc_def)

lemma synced_setup_exp: "synced (setup_exp s)"
  by (simp add: setup_exp_def CalibrateBothMaxMin_def synced_HoldEscMin)

lemma synced_loop: "synced s \<Longrightarrow> synced (loop F e s)"
  by (simp add: loop_def Let_def synced_HoldEscMin)
     (simp add: synced_def ControlStepPID_def HoldEscMin_def writeEsc_def TrySample_def Let_def)

lemma synced_run: "synced s \<Longrightarrow> synced (run F es s)"
  by (induction es arbitrary: s) (simp_all add: synced_loop)

lemma synced_reachable: "synced (run F es (setup_exp s))"
  by (rule synced_run [OF synced_setup_exp])

lemma synced_setup_bal:
  "hd (Esc1_bal (setup_bal F now b)) = CmdUs1_bal (setup_bal F now b)"
  "hd (Esc2_bal (setup_bal F now b)) = CmdUs2_bal (setup_bal F now b)"
  "CmdUs1_bal (setup_bal F now b) = BaseUs" "CmdUs2_bal (setup_bal F now b) = BaseUs"
  by (simp_all add: setup_bal_def SlewBothTo_bal_def Let_def SlewLoop_ne hd_rev last_map
      last_SlewLoop ClampInt_base)

lemma synced_ControlStepPID_bal:
  "Esc1_bal (ControlStepPID_bal F raw now b) = CmdUs1_bal (ControlStepPID_bal F raw now b) # Esc1_bal b"
  "Esc2_bal (ControlStepPID_bal F raw now b) = CmdUs2_bal (ControlStepPID_bal F raw now b) # Esc2_bal b"
  "\<bar>CmdUs1_bal (ControlStepPID_bal F raw now b) - CmdUs1_bal b\<bar> \<le> SlewStepUs"
  "\<bar>CmdUs2_bal (ControlStepPID_bal F raw now b) - CmdUs2_bal b\<bar> \<le> SlewStepUs"
  by (simp_all add: ControlStepPID_bal_def writeEsc_bal_def Let_def ClampInt_step)

subsection \<open>The sum of the two commands\<close>

lemma symmetric_steps:
  assumes "c1 + c2 = 2 * BaseUs" "\<bar>d\<bar> \<le> DeltaMaxUs"
  shows "c1 + ClampInt (ClampInt (BaseUs + d) PulseMinUs PulseMaxUs - c1) (- SlewStepUs) SlewStepUs
       + (c2 + ClampInt (ClampInt (BaseUs - d) PulseMinUs PulseMaxUs - c2) (- SlewStepUs) SlewStepUs)
       = 2 * BaseUs"
proof -
  have "BaseUs - d - c2 = - (BaseUs + d - c1)"
    using assms(1) by simp
  then have "ClampInt (BaseUs - d - c2) (- SlewStepUs) SlewStepUs
      = - ClampInt (BaseUs + d - c1) (- SlewStepUs) SlewStepUs"
    by (simp only: ClampInt_odd)
  then show ?thesis
    using assms(1) by (simp add: ClampInt_delta [OF assms(2)])
qed

lemma ClampInt_abs: "0 \<le> m \<Longrightarrow> \<bar>ClampInt v (- m) m\<bar> \<le> m"
  by (auto simp: ClampInt_def)

lemma sum_ControlStepPID_bal:
  assumes "CmdUs1_bal b + CmdUs2_bal b = 2 * BaseUs"
  shows "CmdUs1_bal (ControlStepPID_bal F raw now b) + CmdUs2_bal (ControlStepPID_bal F raw now b)
    = 2 * BaseUs"
  using symmetric_steps [OF assms ClampInt_abs [of DeltaMaxUs]]
  by (simp add: ControlStepPID_bal_def writeEsc_bal_def Let_def DeltaMaxUs_def)

lemma sum_loop_bal:
  assumes "CmdUs1_bal b + CmdUs2_bal b = 2 * BaseUs"
  shows "CmdUs1_bal (loop_bal F raw0 raw now b) + CmdUs2_bal (loop_bal F raw0 raw now b)
    = 2 * BaseUs"
  using assms sum_ControlStepPID_bal [OF assms] by (simp add: loop_bal_def)

lemma sum_run_bal:
  "CmdUs1_bal b + CmdUs2_bal b = 2 * BaseUs
   \<Longrightarrow> CmdUs1_bal (run_bal F bs b) + CmdUs2_bal (run_bal F bs b) = 2 * BaseUs"
  by (induction bs arbitrary: b) (auto simp: sum_loop_bal)

lemma symmetric_step:
  assumes "ExperimentRunning s" "PotMinSafe \<le> raw_pid e" "raw_pid e \<le> PotMaxSafe"
      "sint (now_end e - ExperimentEndMs s) < 0" "CmdUs1 s + CmdUs2 s = 2 * BaseUs"
      "\<bar>ftrunc F (uDiff F (raw_pid e) (now_pid e) s)\<bar> \<le> DeltaMaxUs"
  shows "CmdUs1 (loop F e s) + CmdUs2 (loop F e s) = 2 * BaseUs"
  using symmetric_steps [OF assms(5,6)] assms(1-4) by (simp add: running_step)

lemma arriving_step:
  assumes "ExperimentRunning s" "PotMinSafe \<le> raw_pid e" "raw_pid e \<le> PotMaxSafe"
      "sint (now_end e - ExperimentEndMs s) < 0"
      "\<bar>ftrunc F (uDiff F (raw_pid e) (now_pid e) s)\<bar> \<le> DeltaMaxUs"
      "\<bar>BaseUs + ftrunc F (uDiff F (raw_pid e) (now_pid e) s) - CmdUs1 s\<bar> \<le> SlewStepUs"
      "\<bar>BaseUs - ftrunc F (uDiff F (raw_pid e) (now_pid e) s) - CmdUs2 s\<bar> \<le> SlewStepUs"
  shows "CmdUs1 (loop F e s) = BaseUs + ftrunc F (uDiff F (raw_pid e) (now_pid e) s)"
    "CmdUs2 (loop F e s) = BaseUs - ftrunc F (uDiff F (raw_pid e) (now_pid e) s)"
  using assms(1-4) ClampInt_near [OF assms(6)] ClampInt_near [OF assms(7)]
  by (simp_all add: running_step ClampInt_delta [OF assms(5)])

lemma parking_step:
  assumes "(ExperimentRunning s \<and> (raw_pid e < PotMinSafe \<or> raw_pid e > PotMaxSafe
              \<or> 0 \<le> sint (now_end e - ExperimentEndMs s)))
           \<or> (\<not> ExperimentRunning s \<and> web e \<noteq> Some GetStart)"
  shows "CmdUs1 (loop F e s) = PulseMinUs \<and> CmdUs2 (loop F e s) = PulseMinUs"
  using assms
  by (auto simp: loop_def Let_def ControlStepPID_def HoldEscMin_def writeEsc_def)

lemma limit_pm_ideal:
  "0 \<le> m \<Longrightarrow> limit_pm ideal m (Fin x) = Fin (max (- of_int m) (min (of_int m) x))"
  "limit_pm ideal m NaN = NaN"
  by (auto simp: limit_pm_def Let_def)

lemma uDiff_bound:
  assumes "uDiff ideal raw now s \<noteq> NaN"
  shows "\<bar>fl_trunc (uDiff ideal raw now s)\<bar> \<le> DeltaMaxUs"
proof -
  obtain x where x: "uDiff ideal raw now s = limit_pm ideal DeltaMaxUs x"
    by (simp add: uDiff_def)
  with assms obtain y where "x = Fin y"
    by (cases x) (simp_all add: limit_pm_ideal)
  with x have "uDiff ideal raw now s = Fin (max (- of_int DeltaMaxUs) (min (of_int DeltaMaxUs) y))"
    by (simp add: limit_pm_ideal DeltaMaxUs_def)
  then show ?thesis
    by (auto intro!: to_int_abs simp: DeltaMaxUs_def)
qed

subsection \<open>Evaluation of concrete runs\<close>

lemmas eval_defs =
  loop_def ServiceWeb_def ControlStepPID_def HoldEscMin_def writeEsc_def TrySample_def
  HandleStart_def SlewBothTo_def Let_def filt_def signed_err_def dtSec_def deriv_def
  integ_def uDiff_def limit_pm_def ClampInt_def to_int_def clamp16_def
  PulseMinUs_def PulseMaxUs_def BaseUs_def DeltaMaxUs_def SlewStepUs_def PotCenter_def
  PotMinSafe_def PotMaxSafe_def PotAlpha_def DAlpha_def LoopDtMs_def IntegralMaxUs_def
  ExperimentDurationMs_def SamplePeriodMs_def MaxSamples_def
  armed_def setup_exp_def CalibrateBothMaxMin_def boot_def started_def start_req_def
  quiet_def

lemma two_ticks_running: "ExperimentRunning (run ideal [tick_a, tick_b] started)"
  by (simp add: eval_defs tick_a_def tick_b_def)

lemma two_ticks_cmd:
  "CmdUs1 (run ideal [tick_a, tick_b] started) = 1108
   \<and> CmdUs2 (run ideal [tick_a, tick_b] started) = 1108"
  by (simp add: eval_defs tick_a_def tick_b_def)

lemmas eval_bal_defs =
  loop_bal_def ControlStepPID_bal_def writeEsc_bal_def setup_bal_def SlewBothTo_bal_def
  CalibrateBothMaxMin_bal_def boot_bal_def dt_bal_def filt_bal_def error_bal_def
  deriv_bal_def uNoI_bal_def accum_bal_def limit_pm_def roundf_def to_int_def ClampInt_def
  Let_def KpUsPerCount_bal_def KiUsPerCountSec_bal_def KdUsPerCountPerSec_bal_def
  InvertDirection_bal_def CalMinUs_def CalMaxUs_def PulseMinUs_def PulseMaxUs_def BaseUs_def
  DeltaMaxUs_def SlewStepUs_def PotCenter_def PotAlpha_def DAlpha_def LoopDtMs_def
  IntegralMaxUs_def

lemma armed_bal_vals:
  "PotFiltered_bal armed_bal = 660" "LastPotFilt_bal armed_bal = 660"
  "DerivFilt_bal armed_bal = Fin 0" "LastTsMs_bal armed_bal = 21000"
  "IntUs_bal armed_bal = Fin 0" "CmdUs1_bal armed_bal = 1250" "CmdUs2_bal armed_bal = 1250"
  by (simp_all add: armed_bal_def eval_bal_defs last_SlewLoop)

lemma armed_bal_terms:
  "uNoI_bal ideal 600 21010 armed_bal = Fin 27"
  "accum_bal ideal 600 21010 armed_bal = Fin (3/250)"
  by (simp_all add: armed_bal_vals uNoI_bal_def accum_bal_def error_bal_def filt_bal_def
      deriv_bal_def dt_bal_def limit_pm_def roundf_def to_int_def Let_def KpUsPerCount_bal_def
      KiUsPerCountSec_bal_def KdUsPerCountPerSec_bal_def InvertDirection_bal_def PotCenter_def
      PotAlpha_def DAlpha_def LoopDtMs_def IntegralMaxUs_def)

lemma jolted_vals:
  "PotFiltered_bal jolted = 708" "LastPotFilt_bal jolted = 708" "DerivFilt_bal jolted = Fin 960"
  "LastTsMs_bal jolted = 21010" "IntUs_bal jolted = Fin (- 6/125)"
  by (simp_all add: jolted_def armed_bal_def eval_bal_defs last_SlewLoop)

lemma jolted_uNoI: "uNoI_bal ideal 900 21020 jolted = Fin (- 1743/10)"
  by (simp add: jolted_vals uNoI_bal_def error_bal_def filt_bal_def deriv_bal_def dt_bal_def
      roundf_def to_int_def Let_def KpUsPerCount_bal_def KdUsPerCountPerSec_bal_def
      InvertDirection_bal_def PotCenter_def PotAlpha_def DAlpha_def LoopDtMs_def)

lemma started5_vals:
  "KpUsPerCount started5 = Fin 5" "KiUsPerCountSec started5 = Fin (1/2)"
  "IntUs started5 = Fin 0"
  "PotFiltered started5 = 0" "LastTsMs started5 = 30000" "lastY started5 = 0"
  "DerivFilt started5 = Fin 0" "\<not> InvertDirection started5"
  "KdUsPerCountPerSec started5 = Fin (1/10)" "ExperimentRunning started5"
  by (simp_all add: started5_def tune5_def eval_defs HandleSet_def constrain_def)

lemma tick_off_terms:
  "filt ideal 600 started5 = 600" "signed_err 600 started5 = 60"
  "dtSec ideal 30500 started5 = Fin (1/2)"
  "deriv ideal 600 30500 started5 = Fin 0"
  by (simp_all add: started5_vals filt_def signed_err_def dtSec_def deriv_def Let_def to_int_def
      PotAlpha_def PotCenter_def DAlpha_def)

lemma tick_off_integ: "integ ideal 600 30500 started5 = Fin 15"
  by (simp add: integ_def tick_off_terms started5_vals limit_pm_def Let_def IntegralMaxUs_def)

lemma started_nan_vals:
  "KpUsPerCount started_nan = Fin (1/4)" "KiUsPerCountSec started_nan = NaN"
  "IntUs started_nan = Fin 0"
  "PotFiltered started_nan = 0" "LastTsMs started_nan = 30000" "lastY started_nan = 0"
  "DerivFilt started_nan = Fin 0" "\<not> InvertDirection started_nan"
  "KdUsPerCountPerSec started_nan = Fin (1/10)" "ExperimentRunning started_nan"
  by (simp_all add: started_nan_def tune_nan_def eval_defs HandleSet_def constrain_def)

lemma tick_off_nan: "integ ideal 600 30500 started_nan = NaN"
  by (simp add: integ_def started_nan_vals filt_def signed_err_def dtSec_def Let_def to_int_def
      PotAlpha_def PotCenter_def limit_pm_def)

subsection \<open>The steady run\<close>

lemma steady_run: "run ideal (ticks n t) s = steady n t s"
  by (induction n arbitrary: t s) simp_all

lemma dtSec_ideal: "\<exists>x. dtSec ideal now s = Fin x \<and> 0 < x"
proof -
  let ?n = "real (unat (now - (if LastTsMs s = 0 then now else LastTsMs s)))"
  have "dtSec ideal now s = Fin (1/100) \<or> (0 < ?n \<and> dtSec ideal now s = Fin (?n / 1000))"
    by (simp add: dtSec_def Let_def LoopDtMs_def not_le)
  then show ?thesis
  proof
    assume "dtSec ideal now s = Fin (1/100)"
    then show ?thesis by (intro exI [of _ "1/100"]) simp
  next
    assume "0 < ?n \<and> dtSec ideal now s = Fin (?n / 1000)"
    then show ?thesis by (intro exI [of _ "?n / 1000"]) simp
  qed
qed

lemma at_rest_uDiff:
  assumes "at_rest c s"
  shows "filt ideal 660 s = 660" "deriv ideal 660 now s = Fin 0" "integ ideal 660 now s = Fin 0"
    "uDiff ideal 660 now s = Fin 0"
proof -
  obtain x where x: "dtSec ideal now s = Fin x" "0 < x"
    using dtSec_ideal by blast
  show f: "filt ideal 660 s = 660"
    using assms(1) by (auto simp: at_rest_def filt_def Let_def to_int_def PotAlpha_def)
  have e: "signed_err 660 s = 0"
    by (simp add: signed_err_def Let_def PotCenter_def)
  show d: "deriv ideal 660 now s = Fin 0"
    using assms(1) f x by (auto simp: at_rest_def deriv_def Let_def DAlpha_def)
  show i: "integ ideal 660 now s = Fin 0"
    using assms(1) f e x
    by (auto simp: at_rest_def integ_def limit_pm_def Let_def IntegralMaxUs_def)
  show "uDiff ideal 660 now s = Fin 0"
    using assms(1) f e d i by (simp add: at_rest_def uDiff_def limit_pm_def Let_def DeltaMaxUs_def)
qed

lemma at_rest_loop:
  assumes "at_rest c s" "sint (t - ExperimentEndMs s) < 0"
  shows "at_rest (c + ClampInt (1250 - c) (- SlewStepUs) SlewStepUs) (loop ideal (centred t) s)
    \<and> ExperimentEndMs (loop ideal (centred t) s) = ExperimentEndMs s"
  using assms at_rest_uDiff [OF assms(1)]
  by (simp add: at_rest_def loop_def centred_def quiet_def Let_def ControlStepPID_def writeEsc_def
      PotMinSafe_def PotMaxSafe_def to_int_def BaseUs_def PulseMinUs_def PulseMaxUs_def ClampInt_def)

lemma at_rest_steady:
  assumes "at_rest c s" "before_end n t (ExperimentEndMs s)"
  shows "at_rest (approach n c) (steady n t s)
    \<and> ExperimentEndMs (steady n t s) = ExperimentEndMs s"
  using assms
proof (induction n arbitrary: c t s)
  case 0
  then show ?case by simp
next
  case (Suc n)
  from Suc.prems at_rest_loop [of c s t]
  have "at_rest (c + ClampInt (1250 - c) (- SlewStepUs) SlewStepUs) (loop ideal (centred t) s)"
    and "ExperimentEndMs (loop ideal (centred t) s) = ExperimentEndMs s"
    by simp_all
  with Suc.prems Suc.IH [of "c + ClampInt (1250 - c) (- SlewStepUs) SlewStepUs" "loop ideal (centred t) s" "t + 10"]
  show ?case by simp
qed

lemma approach_numeral:
  "approach (numeral k) c = approach (pred_numeral k) (c + ClampInt (1250 - c) (- SlewStepUs) SlewStepUs)"
  by (simp add: numeral_eq_Suc)

lemma before_end_numeral:
  "before_end (numeral k) t e = (sint (t - e) < 0 \<and> before_end (pred_numeral k) (t + 10) e)"
  by (simp add: numeral_eq_Suc)

lemma started_at_rest: "at_rest 1100 started \<and> ExperimentEndMs started = 50390"
  by (simp add: at_rest_def eval_defs last_SlewLoop)

lemma settled_at_rest: "at_rest 1250 settled \<and> ExperimentEndMs settled = 50390"
proof -
  have "before_end 38 30405 (ExperimentEndMs started)"
    by (simp add: started_at_rest before_end_numeral)
  from at_rest_steady [OF conjunct1 [OF started_at_rest] this]
  show ?thesis
    by (simp add: settled_def started_at_rest approach_numeral ClampInt_def SlewStepUs_def)
qed

lemma rising_at_rest: "at_rest 1248 rising \<and> ExperimentEndMs rising = 50390"
proof -
  have "before_end 37 30405 (ExperimentEndMs started)"
    by (simp add: started_at_rest before_end_numeral)
  from at_rest_steady [OF conjunct1 [OF started_at_rest] this]
  show ?thesis
    by (simp add: rising_def started_at_rest approach_numeral ClampInt_def SlewStepUs_def)
qed

lemma settled_reached:
  "settled = run ideal (start_req # ticks 38 30405) (setup_exp (boot ideal))"
  by (simp add: settled_def started_def armed_def steady_run)

lemma armed_reached: "armed = run ideal [] (setup_exp (boot ideal))"
  by (simp add: armed_def)

lemma tick_lean_ok:
  "PotMinSafe \<le> raw_pid tick_lean" "raw_pid tick_lean \<le> PotMaxSafe"
  "sint (now_end tick_lean - ExperimentEndMs settled) < 0"
  by (simp_all add: tick_lean_def quiet_def PotMinSafe_def PotMaxSafe_def settled_at_rest)

subsection \<open>The recorded time offsets\<close>

lemma unat_count_Suc:
  assumes "uint (c :: u16) < MaxSamples"
  shows "unat (c + 1) = Suc (unat c)" "uint (c + 1) \<le> MaxSamples"
proof -
  from assms have "uint c < uint (500 :: u16)"
    by (simp add: MaxSamples_def)
  then have "c < 500"
    by (simp only: word_less_def)
  then have n: "unat c < 500"
    by (simp add: word_less_nat_alt)
  then show u: "unat (c + 1) = Suc (unat c)"
    by (simp add: unat_word_ariths)
  have "unat (c + 1) \<le> unat (500 :: u16)"
    using n u by simp
  then have "c + 1 \<le> 500"
    by (simp only: word_le_nat_alt)
  then have "uint (c + 1) \<le> uint (500 :: u16)"
    by (simp only: word_le_def)
  then show "uint (c + 1) \<le> MaxSamples"
    by (simp add: MaxSamples_def)
qed

lemma TrySample_cases:
  "TrySample F now raw s = s \<or>
   (ExperimentRunning s \<and> NextSampleAtMs s \<le> now \<and> uint (SampleCount s) < MaxSamples
    \<and> SampleCount (TrySample F now raw s) = SampleCount s + 1
    \<and> Tms (TrySample F now raw s) = (Tms s)(unat (SampleCount s) := ucast (now - ExperimentStartMs s))
    \<and> NextSampleAtMs (TrySample F now raw s) = NextSampleAtMs s + ucast SamplePeriodMs)"
  by (simp add: TrySample_def Let_def not_less)

lemma served_snoc:
  assumes "unat (SampleCount s') = Suc (unat (SampleCount s))"
    "Tms s' = (Tms s)(unat (SampleCount s) := t)"
  shows "served (Tms s') s' = served (Tms s) s @ [t]"
  using assms by (simp add: served_def)

lemma sample_inv_TrySample:
  assumes "sample_inv b s" "b \<le> unat (now - ExperimentStartMs s)"
    "unat (now - ExperimentStartMs s) < 65536"
  shows "sample_inv (Suc (unat (now - ExperimentStartMs s))) (TrySample F now raw s)"
proof -
  let ?off = "unat (now - ExperimentStartMs s)"
  have t: "unat (ucast (now - ExperimentStartMs s) :: u16) = ?off"
    using assms(3) by (simp add: unsigned_ucast_eq take_bit_nat_eq_self)
  from TrySample_cases [of F now raw s] show ?thesis
  proof
    assume "TrySample F now raw s = s"
    with assms(1,2) show ?thesis
      by (auto simp: sample_inv_def)
  next
    assume a: "ExperimentRunning s \<and> NextSampleAtMs s \<le> now \<and> uint (SampleCount s) < MaxSamples
      \<and> SampleCount (TrySample F now raw s) = SampleCount s + 1
      \<and> Tms (TrySample F now raw s) = (Tms s)(unat (SampleCount s) := ucast (now - ExperimentStartMs s))
      \<and> NextSampleAtMs (TrySample F now raw s) = NextSampleAtMs s + ucast SamplePeriodMs"
    then have c: "unat (SampleCount (TrySample F now raw s)) = Suc (unat (SampleCount s))"
      "uint (SampleCount (TrySample F now raw s)) \<le> MaxSamples"
      using unat_count_Suc [of "SampleCount s"] by simp_all
    from a c(1) have
      "served (Tms (TrySample F now raw s)) (TrySample F now raw s)
         = served (Tms s) s @ [ucast (now - ExperimentStartMs s)]"
      by (intro served_snoc) simp_all
    with assms(1,2) c(2) t show ?thesis
      by (auto simp: sample_inv_def sorted_wrt_append)
  qed
qed

lemma sampling_frame_PID [simp]:
  "SampleCount (ControlStepPID F raw now s) = SampleCount s"
  "Tms (ControlStepPID F raw now s) = Tms s"
  "ExperimentStartMs (ControlStepPID F raw now s) = ExperimentStartMs s"
  by (simp_all add: ControlStepPID_def HoldEscMin_def writeEsc_def Let_def)

lemma sampling_frame_Hold [simp]:
  "SampleCount (HoldEscMin s) = SampleCount s"
  "Tms (HoldEscMin s) = Tms s"
  "ExperimentStartMs (HoldEscMin s) = ExperimentStartMs s"
  by (simp_all add: HoldEscMin_def writeEsc_def)

lemma StartMs_TrySample [simp]:
  "ExperimentStartMs (TrySample F now raw s) = ExperimentStartMs s"
  by (simp add: TrySample_def Let_def)

lemma sampling_frame_dispatch:
  assumes "r \<noteq> GetStart"
  shows "SampleCount (snd (dispatch F r e s)) = SampleCount s \<and> Tms (snd (dispatch F r e s)) = Tms s
    \<and> ExperimentStartMs (snd (dispatch F r e s)) = ExperimentStartMs s"
  using assms
  by (cases r)
     (simp_all add: HandleState_def HandleSet_def HandleData_def Let_def split: option.splits)

lemma sample_inv_cong:
  "SampleCount s' = SampleCount s \<Longrightarrow> Tms s' = Tms s \<Longrightarrow> sample_inv b s' = sample_inv b s"
  by (simp add: sample_inv_def served_def)

lemma sample_inv_mono: "sample_inv b s \<Longrightarrow> b \<le> b' \<Longrightarrow> sample_inv b' s"
  by (auto simp: sample_inv_def)

lemma sample_inv_loop:
  assumes "sample_inv b s" "web e \<noteq> Some GetStart"
    "b \<le> unat (now_sample e - ExperimentStartMs s)"
    "unat (now_sample e - ExperimentStartMs s) < 65536"
  shows "sample_inv (Suc (unat (now_sample e - ExperimentStartMs s))) (loop F e s)
    \<and> ExperimentStartMs (loop F e s) = ExperimentStartMs s"
proof (cases "ExperimentRunning s")
  case True
  let ?s1 = "ControlStepPID F (raw_pid e) (now_pid e) s"
  have "sample_inv b ?s1"
    using assms(1) by (simp add: sample_inv_cong [of ?s1 s])
  then have "sample_inv (Suc (unat (now_sample e - ExperimentStartMs s)))
      (TrySample F (now_sample e) (raw_sample e) ?s1)"
    using sample_inv_TrySample [of b ?s1 "now_sample e" F "raw_sample e"] assms(3,4) by simp
  with True show ?thesis
    by (simp add: loop_def Let_def sample_inv_def served_def)
next
  case False
  have "SampleCount (ServiceWeb F e s) = SampleCount s \<and> Tms (ServiceWeb F e s) = Tms s
    \<and> ExperimentStartMs (ServiceWeb F e s) = ExperimentStartMs s"
    using assms(2) sampling_frame_dispatch [of _ F e s]
    by (auto simp: ServiceWeb_def split: option.splits)
  with False assms(1,3) show ?thesis
    using sample_inv_mono [of b s "Suc (unat (now_sample e - ExperimentStartMs s))"]
    by (simp add: loop_def sample_inv_def served_def)
qed

lemma sample_inv_run:
  assumes "sample_inv b s" "\<forall>e \<in> set es. web e \<noteq> Some GetStart"
    "sorted_wrt (<) (map (\<lambda>e. unat (now_sample e - ExperimentStartMs s)) es)"
    "\<forall>e \<in> set es. b \<le> unat (now_sample e - ExperimentStartMs s)
        \<and> unat (now_sample e - ExperimentStartMs s) < 65536"
  shows "\<exists>b'. sample_inv b' (run F es s)"
  using assms
proof (induction es arbitrary: b s)
  case Nil
  then show ?case by auto
next
  case (Cons e es)
  let ?b = "Suc (unat (now_sample e - ExperimentStartMs s))"
  from Cons.prems sample_inv_loop [of b s e]
  have i: "sample_inv ?b (loop F e s)" and st: "ExperimentStartMs (loop F e s) = ExperimentStartMs s"
    by simp_all
  have "\<exists>b'. sample_inv b' (run F es (loop F e s))"
  proof (rule Cons.IH [OF i])
    show "\<forall>e \<in> set es. web e \<noteq> Some GetStart"
      using Cons.prems(2) by simp
    show "sorted_wrt (<) (map (\<lambda>x. unat (now_sample x - ExperimentStartMs (loop F e s))) es)"
      using Cons.prems(3) by (simp add: st)
    show "\<forall>e' \<in> set es. ?b \<le> unat (now_sample e' - ExperimentStartMs (loop F e s))
        \<and> unat (now_sample e' - ExperimentStartMs (loop F e s)) < 65536"
      using Cons.prems(3,4) by (auto simp: st Suc_le_eq)
  qed
  then show ?case by simp
qed

lemma three_ticks_samples:
  "SampleCount sampled3 = 3" "Tms sampled3 0 = 405" "Tms sampled3 (Suc 0) = 415"
  "Tms sampled3 2 = 625"
  by (simp_all add: sampled3_def eval_defs tick_a_def tick_b_def tick_bad_def)

lemma upt_0_3: "[0 ..< 3] = [0, Suc 0, 2]"
  by code_simp

lemma three_ticks_served: "map unat (served (Tms sampled3) sampled3) = [405, 415, 625]"
  by (simp add: served_def three_ticks_samples upt_0_3)

lemma three_ticks_clock:
  "SampleCount started = 0"
  "unat (now_sample tick_a - ExperimentStartMs started) = 405"
  "unat (now_sample tick_b - ExperimentStartMs started) = 415"
  "unat (now_sample tick_bad - ExperimentStartMs started) = 625"
  "web tick_a = None" "web tick_b = None" "web tick_bad = None"
  by (simp_all add: eval_defs tick_a_def tick_b_def tick_bad_def)

subsection \<open>A whole run\<close>

lemma tally_numeral:
  "tally (numeral k) t (c, nx, lt) =
     tally (pred_numeral k) (t + 10)
       (if t < nx \<or> uint c \<ge> MaxSamples then (c, nx, lt)
        else (c + 1, nx + 50, ucast (t - 30000)))"
  by (simp add: numeral_eq_Suc)

lemma tally_run: "tally 1999 30405 (0, 30000, 0) = (408, 50400, 20355)"
  by (simp add: tally_numeral MaxSamples_def)

lemma before_end_run: "before_end 1999 30405 50390"
  by (simp add: before_end_numeral)

lemma approach_run: "approach 1999 1100 = 1250"
  by (simp add: approach_numeral ClampInt_def SlewStepUs_def)

lemma NextSampleAtMs_PID [simp]:
  "NextSampleAtMs (ControlStepPID F raw now s) = NextSampleAtMs s"
  by (simp add: ControlStepPID_def HoldEscMin_def writeEsc_def Let_def)

lemma sampling_TrySample:
  assumes "sampling (c, nx, lt) s" "ExperimentRunning s"
  shows "sampling (if t < nx \<or> uint c \<ge> MaxSamples then (c, nx, lt)
        else (c + 1, nx + 50, ucast (t - 30000))) (TrySample F t raw s)"
proof (cases "t < nx \<or> uint c \<ge> MaxSamples")
  case True
  with assms show ?thesis
    by (auto simp: sampling_def TrySample_def)
next
  case False
  then have "uint c < MaxSamples" by simp
  from unat_count_Suc(1) [OF this] False assms show ?thesis
    by (simp add: sampling_def TrySample_def Let_def SamplePeriodMs_def)
qed

lemma sampling_loop:
  assumes "at_rest c0 s" "sampling (c, nx, lt) s" "sint (t - ExperimentEndMs s) < 0"
  shows "sampling (if t < nx \<or> uint c \<ge> MaxSamples then (c, nx, lt)
        else (c + 1, nx + 50, ucast (t - 30000))) (loop ideal (centred t) s)"
proof -
  let ?s1 = "ControlStepPID ideal 660 t s"
  have "sampling (c, nx, lt) ?s1" "ExperimentRunning ?s1"
    using assms(1,2) by (simp_all add: sampling_def at_rest_def)
  from sampling_TrySample [OF this, of t ideal 660] assms(1,3) show ?thesis
    by (simp add: loop_def centred_def quiet_def Let_def at_rest_def)
qed

lemma sampling_steady:
  assumes "at_rest c0 s" "sampling x s" "before_end n t (ExperimentEndMs s)"
  shows "sampling (tally n t x) (steady n t s)"
  using assms
proof (induction n arbitrary: c0 t s x)
  case 0
  then show ?case by simp
next
  case (Suc n)
  obtain c nx lt where x: "x = (c, nx, lt)"
    by (cases x) auto
  from Suc.prems at_rest_loop [of c0 s t]
  have a: "at_rest (c0 + ClampInt (1250 - c0) (- SlewStepUs) SlewStepUs) (loop ideal (centred t) s)"
    and b: "ExperimentEndMs (loop ideal (centred t) s) = ExperimentEndMs s"
    by simp_all
  from Suc.prems sampling_loop [of c0 s c nx lt t]
  have c: "sampling (if t < nx \<or> uint c \<ge> MaxSamples then (c, nx, lt)
        else (c + 1, nx + 50, ucast (t - 30000))) (loop ideal (centred t) s)"
    by (simp add: x)
  from Suc.IH [OF a c] Suc.prems(3) b show ?case
    by (simp add: x)
qed

lemma started_sampling: "sampling (0, 30000, 0) started"
  by (simp add: sampling_def eval_defs)

lemma before_finish:
  "at_rest 1250 nearly" "ExperimentEndMs nearly = 50390" "sampling (408, 50400, 20355) nearly"
proof -
  have e: "before_end 1999 30405 (ExperimentEndMs started)"
    by (simp add: started_at_rest before_end_run)
  from at_rest_steady [OF conjunct1 [OF started_at_rest] e]
  show "at_rest 1250 nearly" "ExperimentEndMs nearly = 50390"
    by (simp_all add: nearly_def approach_run started_at_rest)
  from sampling_steady [OF conjunct1 [OF started_at_rest] started_sampling e]
  show "sampling (408, 50400, 20355) nearly"
    by (simp add: nearly_def tally_run)
qed

lemma finished_vals:
  "\<not> ExperimentRunning finished" "SamplesReady finished" "SampleCount finished = 408"
  "Tms finished 407 = 20355" "CmdUs1 finished = PulseMinUs" "CmdUs2 finished = PulseMinUs"
  using before_finish
  by (simp_all add: finished_def loop_def Let_def centred_def quiet_def at_rest_def sampling_def
      TrySample_def HoldEscMin_def writeEsc_def)

lemma last_served:
  "SampleCount s \<noteq> 0 \<Longrightarrow> last (served a s) = a (unat (SampleCount s) - 1)"
proof -
  assume "SampleCount s \<noteq> 0"
  then have "0 < unat (SampleCount s)"
    by (simp add: unat_gt_0)
  then show ?thesis
    by (simp add: served_def last_map)
qed
subsection \<open>Gains and accumulator in the arithmetic \<open>ideal\<close>\<close>

text \<open>
  What \<^verbatim>\<open>HandleSet\<close> stores and \<^verbatim>\<open>HandleState\<close> reports, in any arithmetic; in
  \<open>ideal\<close> a number is stored clamped to its bounds, and a NaN as it is.
\<close>

lemma write_then_read:
  assumes "dispatch F (GetSet kp ki kd invert) e s = (r, s1)"
      and "dispatch F GetState e' s1 = (r', s2)"
  shows "r = Ok \<and> s2 = s1 \<and>
     (\<exists>q. r' = StateJson q
        \<and> r_kp q = KpUsPerCount s1 \<and> r_ki q = KiUsPerCountSec s1
        \<and> r_kd q = KdUsPerCountPerSec s1
        \<and> (\<forall>a. kp = Some a \<longrightarrow> r_kp q = constrain F a (frnd F 0) (frnd F 5))
        \<and> (\<forall>b. ki = Some b \<longrightarrow> r_ki q = constrain F b (frnd F 0) (frnd F 1))
        \<and> (\<forall>c. kd = Some c \<longrightarrow> r_kd q = constrain F c (frnd F 0) (frnd F 2)))"
  using assms
  by (auto simp: HandleSet_def HandleState_def Let_def split: option.splits)

lemma constrain_ideal:
  "lo \<le> hi \<Longrightarrow> constrain ideal (Fin x) (Fin lo) (Fin hi) = Fin (max lo (min hi x))"
  "constrain ideal NaN (Fin lo) (Fin hi) = NaN"
  by (auto simp: constrain_def)

text \<open>
  In \<open>ideal\<close> the accumulator stays a number within \<open>\<plusminus>IntegralMaxUs\<close> on every run in
  which no request writes a NaN to Ki, and on every run of the balance sketch.
\<close>

lemma dt_bal_ideal: "\<exists>x. dt_bal ideal now b = Fin x \<and> 0 < x"
proof -
  let ?n = "real (unat (now - LastTsMs_bal b))"
  have "dt_bal ideal now b = Fin (1/1000) \<or> dt_bal ideal now b = Fin (1/100)
      \<or> (0 < ?n \<and> dt_bal ideal now b = Fin (?n * (1/1000)))"
    by (auto simp: dt_bal_def Let_def LoopDtMs_def not_less)
  then show ?thesis
  proof (elim disjE)
    assume "dt_bal ideal now b = Fin (1/1000)"
    then show ?thesis by (intro exI [of _ "1/1000"]) simp
  next
    assume "dt_bal ideal now b = Fin (1/100)"
    then show ?thesis by (intro exI [of _ "1/100"]) simp
  next
    assume "0 < ?n \<and> dt_bal ideal now b = Fin (?n * (1/1000))"
    then show ?thesis by (intro exI [of _ "?n * (1/1000)"]) simp
  qed
qed

lemma integ_ideal:
  assumes "KiUsPerCountSec s = Fin k" "IntUs s = Fin i"
  shows "\<exists>x. integ ideal raw now s = Fin x \<and> \<bar>x\<bar> \<le> of_int IntegralMaxUs"
proof -
  obtain d where "dtSec ideal now s = Fin d"
    using dtSec_ideal by blast
  with assms show ?thesis
    by (simp add: integ_def limit_pm_ideal IntegralMaxUs_def)
qed

lemma IntUs_loop_ideal:
  assumes "KiUsPerCountSec s \<noteq> NaN" "\<exists>x. IntUs s = Fin x \<and> \<bar>x\<bar> \<le> of_int IntegralMaxUs"
    "\<forall>kp kd invert. web e \<noteq> Some (GetSet kp (Some NaN) kd invert)"
  shows "KiUsPerCountSec (loop ideal e s) \<noteq> NaN
     \<and> (\<exists>x. IntUs (loop ideal e s) = Fin x \<and> \<bar>x\<bar> \<le> of_int IntegralMaxUs)"
proof (cases "ExperimentRunning s")
  case True
  obtain k i where ki: "KiUsPerCountSec s = Fin k" "IntUs s = Fin i"
    using assms(1,2) by (cases "KiUsPerCountSec s") auto
  let ?s1 = "ControlStepPID ideal (raw_pid e) (now_pid e) s"
  have a: "KiUsPerCountSec ?s1 \<noteq> NaN"
    using assms(1) by simp
  have b: "\<exists>x. IntUs ?s1 = Fin x \<and> \<bar>x\<bar> \<le> of_int IntegralMaxUs"
    using integ_ideal [OF ki] assms(2)
    by (simp add: ControlStepPID_def writeEsc_def HoldEscMin_def Let_def)
  show ?thesis
    using True a b by (simp add: loop_def Let_def HoldEscMin_def writeEsc_def)
next
  case False
  show ?thesis
  proof (cases "web e")
    case None
    with False assms(1,2) show ?thesis
      by (simp add: loop_def ServiceWeb_def HoldEscMin_def writeEsc_def)
  next
    case (Some r)
    have "KiUsPerCountSec (snd (dispatch ideal r e s)) \<noteq> NaN
       \<and> (\<exists>x. IntUs (snd (dispatch ideal r e s)) = Fin x \<and> \<bar>x\<bar> \<le> of_int IntegralMaxUs)"
    proof (cases r)
      case (GetSet kp ki kd invert)
      with assms(3) Some have "ki \<noteq> Some NaN"
        by auto
      then have "ki = None \<or> (\<exists>v. ki = Some (Fin v))"
        by (cases ki) (auto intro: fl.exhaust)
      with GetSet assms(1,2) show ?thesis
        by (auto simp: HandleSet_def Let_def constrain_ideal split: option.splits)
    qed (use assms(1,2) in \<open>simp_all add: HandleState_def HandleData_def HandleStart_def
           SlewBothTo_def Let_def IntegralMaxUs_def\<close>)
    with False Some show ?thesis
      by (simp add: loop_def ServiceWeb_def HoldEscMin_def writeEsc_def)
  qed
qed

lemma IntUs_run_ideal:
  assumes "KiUsPerCountSec s \<noteq> NaN" "\<exists>x. IntUs s = Fin x \<and> \<bar>x\<bar> \<le> of_int IntegralMaxUs"
    "\<forall>e \<in> set es. \<forall>kp kd invert. web e \<noteq> Some (GetSet kp (Some NaN) kd invert)"
  shows "\<exists>x. IntUs (run ideal es s) = Fin x \<and> \<bar>x\<bar> \<le> of_int IntegralMaxUs"
  using assms
proof (induction es arbitrary: s)
  case Nil
  then show ?case by simp
next
  case (Cons e es)
  from IntUs_loop_ideal [OF Cons.prems(1,2), of e] Cons.prems(3) Cons.IH [of "loop ideal e s"]
  show ?case by simp
qed

lemma IntUs_reachable_ideal:
  assumes "\<forall>e \<in> set es. \<forall>kp kd invert. web e \<noteq> Some (GetSet kp (Some NaN) kd invert)"
  shows "\<exists>x. IntUs (run ideal es armed) = Fin x \<and> \<bar>x\<bar> \<le> of_int IntegralMaxUs"
  by (rule IntUs_run_ideal [OF _ _ assms])
     (simp_all add: armed_def setup_exp_def CalibrateBothMaxMin_def HoldEscMin_def writeEsc_def
        boot_def IntegralMaxUs_def)

lemma IntUs_loop_bal_ideal:
  assumes "\<exists>x. IntUs_bal b = Fin x \<and> \<bar>x\<bar> \<le> of_int IntegralMaxUs"
  shows "\<exists>x. IntUs_bal (loop_bal ideal raw0 raw now b) = Fin x \<and> \<bar>x\<bar> \<le> of_int IntegralMaxUs"
proof -
  obtain d where "dt_bal ideal now b = Fin d"
    using dt_bal_ideal by blast
  with assms have "\<exists>x. accum_bal ideal raw now b = Fin x \<and> \<bar>x\<bar> \<le> of_int IntegralMaxUs"
    by (auto simp: accum_bal_def limit_pm_ideal IntegralMaxUs_def KiUsPerCountSec_bal_def)
  with assms show ?thesis
    by (simp add: loop_bal_def ControlStepPID_bal_def writeEsc_bal_def Let_def)
qed

lemma IntUs_run_bal_ideal:
  "\<exists>x. IntUs_bal b = Fin x \<and> \<bar>x\<bar> \<le> of_int IntegralMaxUs
   \<Longrightarrow> \<exists>x. IntUs_bal (run_bal ideal bs b) = Fin x \<and> \<bar>x\<bar> \<le> of_int IntegralMaxUs"
  by (induction bs arbitrary: b) (auto simp: IntUs_loop_bal_ideal simp del: ideal_simps)

lemma uDiff_fin:
  assumes "KpUsPerCount s \<noteq> NaN" "KiUsPerCountSec s \<noteq> NaN" "KdUsPerCountPerSec s \<noteq> NaN"
    "IntUs s \<noteq> NaN" "DerivFilt s \<noteq> NaN"
  shows "uDiff ideal raw now s \<noteq> NaN"
proof -
  obtain kp ki kd i df where v: "KpUsPerCount s = Fin kp" "KiUsPerCountSec s = Fin ki"
    "KdUsPerCountPerSec s = Fin kd" "IntUs s = Fin i" "DerivFilt s = Fin df"
    using assms
    by (cases "KpUsPerCount s"; cases "KiUsPerCountSec s"; cases "KdUsPerCountPerSec s";
        cases "IntUs s"; cases "DerivFilt s") auto
  obtain d where d: "dtSec ideal now s = Fin d" "0 < d"
    using dtSec_ideal by blast
  from integ_ideal [OF v(2,4)] obtain x where x: "integ ideal raw now s = Fin x"
    by blast
  have "\<exists>y. deriv ideal raw now s = Fin y"
    using v d by (simp add: deriv_def Let_def DAlpha_def)
  then obtain y where y: "deriv ideal raw now s = Fin y"
    by blast
  show ?thesis
    using v x y by (simp add: uDiff_def limit_pm_ideal DeltaMaxUs_def)
qed

lemma settled_synced: "synced settled"
  unfolding settled_reached by (rule synced_reachable)

lemma settled_last_write: "hd (Esc1 settled) = 1250" "hd (Esc2 settled) = 1250"
  using settled_synced settled_at_rest by (simp_all add: synced_def at_rest_def)

lemma settled_uDiff: "\<bar>fl_trunc (uDiff ideal raw now settled)\<bar> \<le> DeltaMaxUs"
  using settled_at_rest by (intro uDiff_bound uDiff_fin) (simp_all add: at_rest_def)

lemma rising_tick:
  "raw_pid (centred 30775 :: fl env) = 660" "now_pid (centred 30775 :: fl env) = 30775"
  "sint (now_end (centred 30775 :: fl env) - ExperimentEndMs rising) < 0"
  "fl_trunc (uDiff ideal 660 30775 rising) = 0"
  using rising_at_rest at_rest_uDiff(4) [of 1248 rising 30775]
  by (simp_all add: centred_def quiet_def to_int_def)

lemma jolted_reached:
  "jolted = run_bal ideal [(900, 900, 21010)] (setup_bal ideal 21000 (boot_bal ideal))"
  by (simp add: jolted_def armed_bal_def)

lemma nearly_reached:
  "nearly = run ideal (start_req # ticks 1999 30405) (setup_exp (boot ideal))"
  by (simp add: nearly_def started_def armed_def steady_run)

lemma last_tick:
  "ExperimentRunning nearly \<and> PotMinSafe \<le> raw_pid (centred 50395 :: fl env)
   \<and> raw_pid (centred 50395 :: fl env) \<le> PotMaxSafe
   \<and> 0 \<le> sint (now_end (centred 50395 :: fl env) - ExperimentEndMs nearly)"
  using before_finish
  by (simp add: at_rest_def centred_def quiet_def PotMinSafe_def PotMaxSafe_def)

section \<open>Claims\<close>

text \<open>
  C7. A start request that arrives while an experiment is running is answered with the
  reply \<open>AlreadyRunning\<close>, which differs from the reply \<open>Started\<close> of an accepted
  request, and it leaves the whole state as it was: phase, integral accumulator,
  filtered derivative, last timestamp, sample count and both commands. The same holds
  for the predecessor sketch.
\<close>

theorem start_while_running_rejected:
  assumes "ExperimentRunning s"
  shows "HandleStart F e s = (AlreadyRunning, s) \<and> HandleStart_ui F e s = (AlreadyRunning, s)
    \<and> AlreadyRunning \<noteq> Started"
  using assms by (simp add: HandleStart_def HandleStart_ui_def)

theorem start_while_running_rejected_witness:
  "ExperimentRunning started \<and> HandleStart ideal quiet started = (AlreadyRunning, started)
    \<and> HandleStart_ui ideal quiet started = (AlreadyRunning, started)"
  using start_while_running_rejected [OF started_running, of ideal quiet] started_running by simp

text \<open>
  C4. The claim is that the integral accumulator satisfies \<open>\<bar>IntUs\<bar> \<le> IntegralMaxUs\<close>
  for every configuration, after every control step. The experiment sketch breaks it for
  the configuration written by \<^verbatim>\<open>/set?ki=nan\<close>: \<open>constrain\<close> compares the NaN with both
  bounds, both comparisons are false, and the NaN is stored as Ki. After a start request
  (which resets the accumulator to 0) the first control step with the measurement in
  range adds \<open>Ki * err * dt\<close>, which is NaN, and the two limiting comparisons are false
  for it as well: the accumulator is NaN, and \<open>\<bar>IntUs\<bar> \<le> IntegralMaxUs\<close> is false.
  (On runs that write no NaN to Ki the bound holds in \<open>ideal\<close>: lemmas
  \<open>IntUs_reachable_ideal\<close> and \<open>IntUs_run_bal_ideal\<close>.)
\<close>

theorem nan_gain_unbounded_integral:
  "web tune_nan = Some (GetSet None (Some NaN) None None)
   \<and> KiUsPerCountSec (loop ideal tune_nan armed) = NaN
   \<and> ExperimentRunning started_nan \<and> IntUs started_nan = Fin 0
   \<and> PotMinSafe \<le> raw_pid (tick_off :: fl env) \<and> raw_pid (tick_off :: fl env) \<le> PotMaxSafe
   \<and> IntUs (loop ideal tick_off started_nan) = NaN
   \<and> \<not> fle ideal (ffabs ideal (IntUs (loop ideal tick_off started_nan)))
          (frnd ideal (of_int IntegralMaxUs))"
proof -
  have a: "KiUsPerCountSec (loop ideal tune_nan armed) = NaN"
    using armed_idle
    by (simp add: loop_def ServiceWeb_def tune_nan_def quiet_def HandleSet_def constrain_ideal
        HoldEscMin_def writeEsc_def)
  have b: "IntUs (loop ideal tick_off started_nan) = NaN"
    using tick_off_nan
    by (simp add: loop_def tick_off_def quiet_def started_nan_vals ControlStepPID_def
        writeEsc_def HoldEscMin_def Let_def PotMinSafe_def PotMaxSafe_def)
  show ?thesis
    using a b
    by (simp add: started_nan_vals tune_nan_def quiet_def tick_off_def PotMinSafe_def
        PotMaxSafe_def)
qed

text \<open>
  C8. The claim is that a tuning value outside its bounds (Kp in [0,5], Ki in [0,1], Kd
  in [0,2]) is stored clamped and read back clamped. The write is always accepted and
  the state read reports exactly the stored gains (lemma \<open>write_then_read\<close>), and a
  number is stored clamped (lemma \<open>constrain_ideal\<close>), but the request
  \<^verbatim>\<open>/set?kp=nan\<close> breaks the claim: the NaN is below no bound and above none for
  \<open>constrain\<close>, so it is stored as it is, and the state read that follows reports NaN, a
  value that is not within [0, 5].
\<close>

theorem nan_gain_stored_unclamped:
  "fst (dispatch ideal set_kp_nan quiet armed) = Ok
   \<and> KpUsPerCount (snd (dispatch ideal set_kp_nan quiet armed)) = NaN
   \<and> (\<exists>q. dispatch ideal GetState quiet (snd (dispatch ideal set_kp_nan quiet armed))
            = (StateJson q, snd (dispatch ideal set_kp_nan quiet armed))
        \<and> r_kp q = NaN
        \<and> \<not> fle ideal (frnd ideal 0) (r_kp q) \<and> \<not> fle ideal (r_kp q) (frnd ideal 5))
   \<and> constrain ideal NaN (frnd ideal 0) (frnd ideal 5) = NaN"
  by (simp add: set_kp_nan_def HandleSet_def HandleState_def Let_def constrain_ideal)

text \<open>
  C1, as amended. In every loop iteration of the experiment sketch that does not serve a
  start request (so in every iteration while Running), and in every loop iteration of
  the balance sketch, a raw measurement outside [300, 900] leaves the minimum pulse
  \<open>PulseMinUs\<close> as the last value written to both ESCs, whatever the commands were
  before (no slewing), and leaves the integral accumulator, the filtered derivative and
  the last timestamp as they were. In the experiment sketch both command variables are
  \<open>PulseMinUs\<close> after the iteration. The start request is not guarded by the sensor.
\<close>

theorem interlock_parks_outputs:
  assumes "raw_pid e < PotMinSafe \<or> raw_pid e > PotMaxSafe"
      and "ExperimentRunning s \<or> web e \<noteq> Some GetStart"
  shows "CmdUs1 (loop F e s) = PulseMinUs \<and> CmdUs2 (loop F e s) = PulseMinUs
     \<and> hd (Esc1 (loop F e s)) = PulseMinUs \<and> hd (Esc2 (loop F e s)) = PulseMinUs
     \<and> IntUs (loop F e s) = IntUs s \<and> DerivFilt (loop F e s) = DerivFilt s
     \<and> LastTsMs (loop F e s) = LastTsMs s
     \<and> hd (Esc1_bal (loop_bal F (raw_pid e) raw now b)) = PulseMinUs
     \<and> hd (Esc2_bal (loop_bal F (raw_pid e) raw now b)) = PulseMinUs
     \<and> IntUs_bal (loop_bal F (raw_pid e) raw now b) = IntUs_bal b
     \<and> DerivFilt_bal (loop_bal F (raw_pid e) raw now b) = DerivFilt_bal b
     \<and> LastTsMs_bal (loop_bal F (raw_pid e) raw now b) = LastTsMs_bal b"
proof (cases "ExperimentRunning s")
  case True
  with assms(1) show ?thesis
    by (simp add: loop_def ControlStepPID_def HoldEscMin_def writeEsc_def TrySample_def Let_def
        loop_bal_def PotMinSafe_def PotMaxSafe_def)
next
  case False
  show ?thesis
  proof (cases "web e")
    case None
    with False assms(1) show ?thesis
      by (simp add: loop_def ServiceWeb_def HoldEscMin_def writeEsc_def loop_bal_def
          PotMinSafe_def PotMaxSafe_def)
  next
    case (Some r)
    with False assms(2) have "r \<noteq> GetStart" by simp
    from frame_dispatch [OF this, of F e s] Some False assms(1) show ?thesis
      by (simp add: loop_def ServiceWeb_def HoldEscMin_def writeEsc_def loop_bal_def
          PotMinSafe_def PotMaxSafe_def)
  qed
qed

theorem interlock_parks_outputs_witness:
  "raw_pid (tick_bad :: fl env) < PotMinSafe
   \<and> ExperimentRunning (run ideal [tick_a, tick_b] started)
   \<and> CmdUs1 (run ideal [tick_a, tick_b] started) = 1108
   \<and> CmdUs1 (loop ideal tick_bad (run ideal [tick_a, tick_b] started)) = PulseMinUs
   \<and> hd (Esc1 (loop ideal tick_bad (run ideal [tick_a, tick_b] started))) = PulseMinUs
   \<and> IntUs (loop ideal tick_bad (run ideal [tick_a, tick_b] started))
       = IntUs (run ideal [tick_a, tick_b] started)"
proof -
  have a: "raw_pid (tick_bad :: fl env) < PotMinSafe"
    by (simp add: tick_bad_def quiet_def PotMinSafe_def)
  show ?thesis
    using interlock_parks_outputs [OF disjI1 [OF a] disjI1 [OF two_ticks_running], of ideal]
      a two_ticks_running two_ticks_cmd
    by simp
qed

text \<open>
  C1 as stated fails in the Idle phase: with the sensor reading 200, the iteration
  that serves a start request rewrites the last timestamp and drives both ESCs up to
  \<open>BaseUs\<close> (the write before the final parking one) before it parks them.
\<close>

theorem start_unguarded_counterexample:
  "raw_pid (bad_start :: fl env) < PotMinSafe \<and> \<not> ExperimentRunning armed
   \<and> LastTsMs (loop ideal bad_start armed) \<noteq> LastTsMs armed
   \<and> Esc1 (loop ideal bad_start armed) ! 1 = BaseUs
   \<and> Esc2 (loop ideal bad_start armed) ! 1 = BaseUs
   \<and> BaseUs \<noteq> PulseMinUs"
  by (simp add: eval_defs bad_start_def last_SlewLoop SlewLoop_ne nth_append hd_rev hd_map
      last_map flip: hd_conv_nth)

text \<open>
  C6, as amended. The balance sketch sets \<open>PotFiltered\<close> to \<open>PotCenter\<close> at the end of
  its \<^verbatim>\<open>setup\<close>, after arming. The experiment sketch never resets it: arming leaves it
  at its boot value 0, and no request handler, the start request included, changes it, so
  it keeps across runs the value the last control step gave it.
\<close>

theorem filtered_measurement_reset:
  "PotFiltered_bal (setup_bal F now b) = PotCenter
   \<and> PotFiltered (setup_exp s) = PotFiltered s
   \<and> PotFiltered (boot F) = 0
   \<and> PotFiltered (snd (HandleStart F e s)) = PotFiltered s
   \<and> PotFiltered (HoldEscMin (ServiceWeb F e s)) = PotFiltered s"
  using PotFiltered_dispatch [of F _ e s]
  by (simp add: setup_bal_def setup_exp_def CalibrateBothMaxMin_def HoldEscMin_def writeEsc_def
      boot_def HandleStart_def SlewBothTo_def Let_def ServiceWeb_def split: option.splits)

theorem filtered_measurement_reset_witness:
  "PotFiltered_bal (setup_bal ideal 21000 (boot_bal ideal)) = PotCenter
   \<and> PotFiltered (snd (HandleStart ideal start_req armed)) = PotFiltered armed"
  using filtered_measurement_reset [of ideal 21000 "boot_bal ideal" armed start_req] by simp

text \<open>
  C6 as stated fails in the experiment sketch: after arming, and again after the first
  start request, \<open>PotFiltered\<close> is still 0 and not \<open>PotCenter\<close>.
\<close>

theorem filtered_measurement_not_reset_counterexample:
  "PotFiltered armed \<noteq> PotCenter \<and> \<not> ExperimentRunning armed \<and> ExperimentRunning started
   \<and> PotFiltered started \<noteq> PotCenter"
  using armed_idle started_running by (simp add: eval_defs)

text \<open>
  C2, as amended. In the balance sketch the control step updates the integral accumulator
  only when the comparison \<^verbatim>\<open>fabs(uNoI) < DeltaMaxUs - 5\<close> on the partial output (P term
  plus D term) is true: otherwise the accumulator is left as it was, and when it is
  updated it becomes the accumulated value \<open>IntUs + (Ki * error) * dt\<close> passed through the
  two limiting comparisons with \<open>\<plusminus>IntegralMaxUs\<close>. In the experiment sketch every control
  step with the measurement in range updates the accumulator in that way, whatever the
  partial output is. The two limiting comparisons return their argument or one of the two
  bounds; in \<open>ideal\<close> they bring a number into \<open>\<plusminus>IntegralMaxUs\<close> and let a NaN through.
\<close>

theorem anti_windup:
  "(\<not> flt F (ffabs F (uNoI_bal F raw now b)) (frnd F (of_int (DeltaMaxUs - 5)))
      \<longrightarrow> IntUs_bal (ControlStepPID_bal F raw now b) = IntUs_bal b)
   \<and> (flt F (ffabs F (uNoI_bal F raw now b)) (frnd F (of_int (DeltaMaxUs - 5)))
      \<longrightarrow> IntUs_bal (ControlStepPID_bal F raw now b)
          = limit_pm F IntegralMaxUs
              (fadd F (IntUs_bal b)
                 (fmul F (fmul F (KiUsPerCountSec_bal F) (frnd F (of_int (error_bal F raw b))))
                         (dt_bal F now b))))
   \<and> (PotMinSafe \<le> raw' \<and> raw' \<le> PotMaxSafe
      \<longrightarrow> IntUs (ControlStepPID F raw' now' s)
          = limit_pm F IntegralMaxUs
              (fadd F (IntUs s)
                 (fmul F (fmul F (KiUsPerCountSec s)
                                 (frnd F (of_int (signed_err (filt F raw' s) s))))
                         (dtSec F now' s))))
   \<and> (limit_pm F m x = x \<or> limit_pm F m x = frnd F (of_int m)
        \<or> limit_pm F m x = frnd F (of_int (- m)))
   \<and> (0 \<le> m \<longrightarrow> limit_pm ideal m (Fin y) = Fin (max (- of_int m) (min (of_int m) y)))
   \<and> limit_pm ideal m NaN = NaN"
proof (intro conjI impI)
  show "limit_pm F m x = x \<or> limit_pm F m x = frnd F (of_int m)
        \<or> limit_pm F m x = frnd F (of_int (- m))"
    by (simp add: limit_pm_def Let_def)
qed (simp_all add: ControlStepPID_bal_def ControlStepPID_def writeEsc_bal_def writeEsc_def
      accum_bal_def integ_def Let_def limit_pm_ideal)

theorem anti_windup_witness:
  "\<not> flt ideal (ffabs ideal (uNoI_bal ideal 900 21020 jolted)) (frnd ideal (of_int (DeltaMaxUs - 5)))
   \<and> IntUs_bal (ControlStepPID_bal ideal 900 21020 jolted) = IntUs_bal jolted
   \<and> flt ideal (ffabs ideal (uNoI_bal ideal 600 21010 armed_bal))
        (frnd ideal (of_int (DeltaMaxUs - 5)))
   \<and> IntUs_bal (ControlStepPID_bal ideal 600 21010 armed_bal) = Fin (3/250)
   \<and> PotMinSafe \<le> 600 \<and> 600 \<le> PotMaxSafe
   \<and> IntUs (ControlStepPID ideal 600 30500 started5) = Fin 15
   \<and> limit_pm ideal 80 (Fin 100) = Fin 80"
proof -
  have a: "\<not> flt ideal (ffabs ideal (uNoI_bal ideal 900 21020 jolted))
      (frnd ideal (of_int (DeltaMaxUs - 5)))"
    by (simp add: jolted_uNoI DeltaMaxUs_def)
  have b: "flt ideal (ffabs ideal (uNoI_bal ideal 600 21010 armed_bal))
      (frnd ideal (of_int (DeltaMaxUs - 5)))"
    by (simp add: armed_bal_terms DeltaMaxUs_def)
  have c: "PotMinSafe \<le> 600 \<and> 600 \<le> PotMaxSafe"
    by (simp add: PotMinSafe_def PotMaxSafe_def)
  have "IntUs_bal (ControlStepPID_bal ideal 900 21020 jolted) = IntUs_bal jolted"
    using anti_windup [where F = ideal and raw = 900 and now = 21020 and b = jolted] a
    by blast
  moreover have "IntUs_bal (ControlStepPID_bal ideal 600 21010 armed_bal) = Fin (3/250)"
    using anti_windup [where F = ideal and raw = 600 and now = 21010 and b = armed_bal] b
      armed_bal_terms(2)
    by (simp add: accum_bal_def)
  moreover have "IntUs (ControlStepPID ideal 600 30500 started5) = Fin 15"
    using anti_windup [where F = ideal and raw' = 600 and now' = 30500 and s = started5] c
      tick_off_integ
    by (simp add: integ_def)
  moreover have "limit_pm ideal 80 (Fin 100) = Fin 80"
    using anti_windup [where F = ideal and m = 80 and y = 100, THEN conjunct2, THEN conjunct2,
        THEN conjunct2, THEN conjunct2, THEN conjunct1]
    by simp
  ultimately show ?thesis
    using a b c by simp
qed

text \<open>
  C2 as stated fails in the experiment sketch: in the first control step of the run
  \<open>started5\<close> the P term is 300 and the D term 0, so the partial output is beyond the
  saturation limit \<open>DeltaMaxUs\<close> itself, and the accumulator still moves from 0 to 15
  (Ki is 0.5, the error 60 counts, the time step 0.5 s).
\<close>

theorem integrates_when_saturated_counterexample:
  "ExperimentRunning started5
   \<and> fle ideal (frnd ideal (of_int DeltaMaxUs))
       (ffabs ideal
          (fsub ideal
             (fmul ideal (KpUsPerCount started5)
                (frnd ideal (of_int (signed_err (filt ideal 600 started5) started5))))
             (fmul ideal (KdUsPerCountPerSec started5) (deriv ideal 600 30500 started5))))
   \<and> IntUs started5 = Fin 0
   \<and> IntUs (loop ideal tick_off started5) = Fin 15"
  using tick_off_integ
  by (simp add: started5_vals tick_off_terms loop_def tick_off_def quiet_def ControlStepPID_def
      writeEsc_def TrySample_def Let_def DeltaMaxUs_def PotMinSafe_def PotMaxSafe_def
      HoldEscMin_def)

text \<open>
  C3, as amended. The comparison is between consecutive pulse widths written to one ESC.
  In every state \<open>s\<close> that the experiment sketch reaches after \<^verbatim>\<open>setup\<close>, the last
  write on each channel is the value of its command variable, and the next write changes
  it by at most \<open>SlewStepUs\<close> in these cases: a control step while Running with the
  measurement in range (one write per channel; when the iteration also ends the run, the
  hard stop writes \<open>PulseMinUs\<close> after it); the slew to base that a start request
  performs while Idle, from the last write before the request (the parked minimum)
  through every value it writes, ending at \<open>BaseUs\<close>; an Idle iteration that serves no start request (it
  rewrites the same value). In the balance sketch the last write
  after \<^verbatim>\<open>setup\<close> and after every control step is the value of the command variable, and
  a control step that follows such a state writes a value within \<open>SlewStepUs\<close> of it.
  The bound is not claimed for the writes of arming, for the write of the safety
  interlock (which fails it), for the hard stop that ends the run, for the control step
  of the balance sketch that follows an interlock write, and for the parking write that
  ends the iteration that served a start request.
\<close>

theorem slew_limited:
  assumes "s = run F es (setup_exp (boot F))"
  shows "hd (Esc1 s) = CmdUs1 s \<and> hd (Esc2 s) = CmdUs2 s
   \<and> (ExperimentRunning s \<and> PotMinSafe \<le> raw_pid e \<and> raw_pid e \<le> PotMaxSafe
        \<and> sint (now_end e - ExperimentEndMs s) < 0
      \<longrightarrow> (\<exists>c1 c2. Esc1 (loop F e s) = c1 # Esc1 s \<and> Esc2 (loop F e s) = c2 # Esc2 s
             \<and> \<bar>c1 - hd (Esc1 s)\<bar> \<le> SlewStepUs \<and> \<bar>c2 - hd (Esc2 s)\<bar> \<le> SlewStepUs))
   \<and> (ExperimentRunning s \<and> PotMinSafe \<le> raw_pid e \<and> raw_pid e \<le> PotMaxSafe
        \<and> 0 \<le> sint (now_end e - ExperimentEndMs s)
      \<longrightarrow> (\<exists>c1 c2. Esc1 (loop F e s) = PulseMinUs # c1 # Esc1 s
             \<and> Esc2 (loop F e s) = PulseMinUs # c2 # Esc2 s
             \<and> \<bar>c1 - hd (Esc1 s)\<bar> \<le> SlewStepUs \<and> \<bar>c2 - hd (Esc2 s)\<bar> \<le> SlewStepUs))
   \<and> (\<not> ExperimentRunning s
      \<longrightarrow> hd (Esc1 s) = PulseMinUs \<and> hd (Esc2 s) = PulseMinUs
        \<and> (\<exists>ws. Esc1 (snd (HandleStart F e s)) = rev (map fst ws) @ Esc1 s
             \<and> Esc2 (snd (HandleStart F e s)) = rev (map snd ws) @ Esc2 s
             \<and> slew_ok (hd (Esc1 s) # map fst ws) \<and> slew_ok (hd (Esc2 s) # map snd ws)
             \<and> last (map fst ws) = BaseUs \<and> last (map snd ws) = BaseUs))
   \<and> (\<not> ExperimentRunning s \<and> web e \<noteq> Some GetStart
      \<longrightarrow> Esc1 (loop F e s) = hd (Esc1 s) # Esc1 s \<and> Esc2 (loop F e s) = hd (Esc2 s) # Esc2 s)
   \<and> hd (Esc1_bal (setup_bal F now b')) = CmdUs1_bal (setup_bal F now b')
   \<and> hd (Esc2_bal (setup_bal F now b')) = CmdUs2_bal (setup_bal F now b')
   \<and> (300 \<le> raw0 \<and> raw0 \<le> 900
        \<and> hd (Esc1_bal b) = CmdUs1_bal b \<and> hd (Esc2_bal b) = CmdUs2_bal b
      \<longrightarrow> (\<exists>c1 c2. Esc1_bal (loop_bal F raw0 raw now' b) = c1 # Esc1_bal b
             \<and> Esc2_bal (loop_bal F raw0 raw now' b) = c2 # Esc2_bal b
             \<and> \<bar>c1 - hd (Esc1_bal b)\<bar> \<le> SlewStepUs \<and> \<bar>c2 - hd (Esc2_bal b)\<bar> \<le> SlewStepUs
             \<and> c1 = CmdUs1_bal (loop_bal F raw0 raw now' b)
             \<and> c2 = CmdUs2_bal (loop_bal F raw0 raw now' b)))"
proof -
  have sy: "synced s"
    unfolding assms by (rule synced_reachable)
  then have h: "hd (Esc1 s) = CmdUs1 s" "hd (Esc2 s) = CmdUs2 s"
    by (simp_all add: synced_def)
  have run: "\<exists>c1 c2. Esc1 (loop F e s) = c1 # Esc1 s \<and> Esc2 (loop F e s) = c2 # Esc2 s
             \<and> \<bar>c1 - hd (Esc1 s)\<bar> \<le> SlewStepUs \<and> \<bar>c2 - hd (Esc2 s)\<bar> \<le> SlewStepUs"
    if a: "ExperimentRunning s \<and> PotMinSafe \<le> raw_pid e \<and> raw_pid e \<le> PotMaxSafe
        \<and> sint (now_end e - ExperimentEndMs s) < 0"
  proof (intro exI conjI)
    show "Esc1 (loop F e s) = CmdUs1 (loop F e s) # Esc1 s"
      "Esc2 (loop F e s) = CmdUs2 (loop F e s) # Esc2 s"
      using a by (simp_all add: running_step)
    show "\<bar>CmdUs1 (loop F e s) - hd (Esc1 s)\<bar> \<le> SlewStepUs"
      "\<bar>CmdUs2 (loop F e s) - hd (Esc2 s)\<bar> \<le> SlewStepUs"
      using a by (simp_all add: h running_step ClampInt_step)
  qed
  have ending: "\<exists>c1 c2. Esc1 (loop F e s) = PulseMinUs # c1 # Esc1 s
             \<and> Esc2 (loop F e s) = PulseMinUs # c2 # Esc2 s
             \<and> \<bar>c1 - hd (Esc1 s)\<bar> \<le> SlewStepUs \<and> \<bar>c2 - hd (Esc2 s)\<bar> \<le> SlewStepUs"
    if a: "ExperimentRunning s \<and> PotMinSafe \<le> raw_pid e \<and> raw_pid e \<le> PotMaxSafe
        \<and> 0 \<le> sint (now_end e - ExperimentEndMs s)"
    using a ending_step [of s e F] by (simp add: h ClampInt_step)
  have parked: "hd (Esc1 s) = PulseMinUs" "hd (Esc2 s) = PulseMinUs"
    if "\<not> ExperimentRunning s"
    using that sy by (simp_all add: synced_def)
  have start: "\<exists>ws. Esc1 (snd (HandleStart F e s)) = rev (map fst ws) @ Esc1 s
             \<and> Esc2 (snd (HandleStart F e s)) = rev (map snd ws) @ Esc2 s
             \<and> slew_ok (hd (Esc1 s) # map fst ws) \<and> slew_ok (hd (Esc2 s) # map snd ws)
             \<and> last (map fst ws) = BaseUs \<and> last (map snd ws) = BaseUs"
    if "\<not> ExperimentRunning s"
    using that slew_ok_SlewLoop [of "CmdUs1 s" BaseUs BaseUs "CmdUs2 s"]
    by (intro exI [of _ "SlewLoop BaseUs BaseUs (CmdUs1 s) (CmdUs2 s)"])
       (simp add: h HandleStart_def SlewBothTo_def Let_def last_map SlewLoop_ne last_SlewLoop
          ClampInt_base)
  have idle: "Esc1 (loop F e s) = hd (Esc1 s) # Esc1 s \<and> Esc2 (loop F e s) = hd (Esc2 s) # Esc2 s"
    if a: "\<not> ExperimentRunning s \<and> web e \<noteq> Some GetStart"
  proof -
    have "Esc1 (ServiceWeb F e s) = Esc1 s \<and> Esc2 (ServiceWeb F e s) = Esc2 s"
      using a frame_cmd_dispatch [of _ F e s] by (auto simp: ServiceWeb_def split: option.splits)
    with a sy show ?thesis
      by (auto simp: loop_def HoldEscMin_def writeEsc_def synced_def)
  qed
  have bal: "\<exists>c1 c2. Esc1_bal (loop_bal F raw0 raw now' b) = c1 # Esc1_bal b
             \<and> Esc2_bal (loop_bal F raw0 raw now' b) = c2 # Esc2_bal b
             \<and> \<bar>c1 - hd (Esc1_bal b)\<bar> \<le> SlewStepUs \<and> \<bar>c2 - hd (Esc2_bal b)\<bar> \<le> SlewStepUs
             \<and> c1 = CmdUs1_bal (loop_bal F raw0 raw now' b)
             \<and> c2 = CmdUs2_bal (loop_bal F raw0 raw now' b)"
    if a: "300 \<le> raw0 \<and> raw0 \<le> 900
        \<and> hd (Esc1_bal b) = CmdUs1_bal b \<and> hd (Esc2_bal b) = CmdUs2_bal b"
  proof -
    from a have l: "loop_bal F raw0 raw now' b = ControlStepPID_bal F raw now' b"
      by (simp add: loop_bal_def)
    show ?thesis
      unfolding l using a synced_ControlStepPID_bal [of F raw now' b] by simp
  qed
  show ?thesis
    by (intro conjI impI;
        (rule h run ending parked start idle [THEN conjunct1] idle [THEN conjunct2] bal synced_setup_bal(1,2));
        assumption?)
qed

theorem slew_limited_witness:
  "ExperimentRunning settled \<and> PotMinSafe \<le> raw_pid (tick_lean :: fl env)
   \<and> raw_pid (tick_lean :: fl env) \<le> PotMaxSafe
   \<and> sint (now_end (tick_lean :: fl env) - ExperimentEndMs settled) < 0
   \<and> hd (Esc1 settled) = CmdUs1 settled \<and> CmdUs1 settled = 1250
   \<and> (\<exists>c1 c2. Esc1 (loop ideal tick_lean settled) = c1 # Esc1 settled
         \<and> Esc2 (loop ideal tick_lean settled) = c2 # Esc2 settled
         \<and> \<bar>c1 - hd (Esc1 settled)\<bar> \<le> SlewStepUs \<and> \<bar>c2 - hd (Esc2 settled)\<bar> \<le> SlewStepUs)
   \<and> ExperimentRunning nearly \<and> PotMinSafe \<le> raw_pid (centred 50395 :: fl env)
   \<and> raw_pid (centred 50395 :: fl env) \<le> PotMaxSafe
   \<and> 0 \<le> sint (now_end (centred 50395 :: fl env) - ExperimentEndMs nearly)
   \<and> (\<exists>c1 c2. Esc1 finished = PulseMinUs # c1 # Esc1 nearly
         \<and> Esc2 finished = PulseMinUs # c2 # Esc2 nearly
         \<and> \<bar>c1 - hd (Esc1 nearly)\<bar> \<le> SlewStepUs \<and> \<bar>c2 - hd (Esc2 nearly)\<bar> \<le> SlewStepUs)
   \<and> \<not> ExperimentRunning armed \<and> hd (Esc1 armed) = PulseMinUs \<and> hd (Esc2 armed) = PulseMinUs
   \<and> (\<exists>ws. Esc1 (snd (HandleStart ideal start_req armed)) = rev (map fst ws) @ Esc1 armed
         \<and> Esc2 (snd (HandleStart ideal start_req armed)) = rev (map snd ws) @ Esc2 armed
         \<and> slew_ok (hd (Esc1 armed) # map fst ws) \<and> slew_ok (hd (Esc2 armed) # map snd ws)
         \<and> last (map fst ws) = BaseUs \<and> last (map snd ws) = BaseUs)
   \<and> web (quiet :: fl env) \<noteq> Some GetStart
   \<and> Esc1 (loop ideal quiet armed) = hd (Esc1 armed) # Esc1 armed
   \<and> (300 :: int) \<le> 600 \<and> (600 :: int) \<le> 900
   \<and> hd (Esc1_bal armed_bal) = CmdUs1_bal armed_bal
   \<and> hd (Esc2_bal armed_bal) = CmdUs2_bal armed_bal
   \<and> (\<exists>c1 c2. Esc1_bal (loop_bal ideal 600 600 21010 armed_bal) = c1 # Esc1_bal armed_bal
         \<and> Esc2_bal (loop_bal ideal 600 600 21010 armed_bal) = c2 # Esc2_bal armed_bal
         \<and> \<bar>c1 - hd (Esc1_bal armed_bal)\<bar> \<le> SlewStepUs
         \<and> \<bar>c2 - hd (Esc2_bal armed_bal)\<bar> \<le> SlewStepUs
         \<and> c1 = CmdUs1_bal (loop_bal ideal 600 600 21010 armed_bal)
         \<and> c2 = CmdUs2_bal (loop_bal ideal 600 600 21010 armed_bal))"
proof -
  note A = slew_limited [OF settled_reached, where e = tick_lean and now = 21000
      and b' = "boot_bal ideal" and raw0 = 600 and raw = 600 and now' = 21010 and b = armed_bal,
      folded armed_bal_def]
  note B = slew_limited [OF armed_reached, where e = start_req and now = 21000
      and b' = "boot_bal ideal" and raw0 = 600 and raw = 600 and now' = 21010 and b = armed_bal,
      folded armed_bal_def]
  note C = slew_limited [OF armed_reached, where e = quiet and now = 21000
      and b' = "boot_bal ideal" and raw0 = 600 and raw = 600 and now' = 21010 and b = armed_bal,
      folded armed_bal_def]
  note D = slew_limited [OF nearly_reached, where e = "centred 50395" and now = 21000
      and b' = "boot_bal ideal" and raw0 = 600 and raw = 600 and now' = 21010 and b = armed_bal,
      folded armed_bal_def finished_def]
  have e: "\<exists>c1 c2. Esc1 finished = PulseMinUs # c1 # Esc1 nearly
         \<and> Esc2 finished = PulseMinUs # c2 # Esc2 nearly
         \<and> \<bar>c1 - hd (Esc1 nearly)\<bar> \<le> SlewStepUs \<and> \<bar>c2 - hd (Esc2 nearly)\<bar> \<le> SlewStepUs"
    by (rule mp [OF conjunct1 [OF conjunct2 [OF conjunct2 [OF conjunct2 [OF D]]]] last_tick])
  have r: "ExperimentRunning settled \<and> PotMinSafe \<le> raw_pid (tick_lean :: fl env)
      \<and> raw_pid (tick_lean :: fl env) \<le> PotMaxSafe
      \<and> sint (now_end (tick_lean :: fl env) - ExperimentEndMs settled) < 0"
    using settled_at_rest tick_lean_ok by (simp add: at_rest_def)
  have q: "\<not> ExperimentRunning armed \<and> web (quiet :: fl env) \<noteq> Some GetStart"
    using armed_idle by (simp add: quiet_def)
  have h: "hd (Esc1 settled) = CmdUs1 settled"
    by (rule conjunct1 [OF A])
  have hb: "hd (Esc1_bal armed_bal) = CmdUs1_bal armed_bal"
    "hd (Esc2_bal armed_bal) = CmdUs2_bal armed_bal"
    using A by blast+
  have a: "\<exists>c1 c2. Esc1 (loop ideal tick_lean settled) = c1 # Esc1 settled
         \<and> Esc2 (loop ideal tick_lean settled) = c2 # Esc2 settled
         \<and> \<bar>c1 - hd (Esc1 settled)\<bar> \<le> SlewStepUs \<and> \<bar>c2 - hd (Esc2 settled)\<bar> \<le> SlewStepUs"
    by (rule mp [OF conjunct1 [OF conjunct2 [OF conjunct2 [OF A]]] r])
  have b: "hd (Esc1 armed) = PulseMinUs \<and> hd (Esc2 armed) = PulseMinUs
     \<and> (\<exists>ws. Esc1 (snd (HandleStart ideal start_req armed)) = rev (map fst ws) @ Esc1 armed
         \<and> Esc2 (snd (HandleStart ideal start_req armed)) = rev (map snd ws) @ Esc2 armed
         \<and> slew_ok (hd (Esc1 armed) # map fst ws) \<and> slew_ok (hd (Esc2 armed) # map snd ws)
         \<and> last (map fst ws) = BaseUs \<and> last (map snd ws) = BaseUs)"
    by (rule mp [OF conjunct1 [OF conjunct2 [OF conjunct2 [OF conjunct2 [OF conjunct2 [OF B]]]]]
        armed_idle])
  have c: "Esc1 (loop ideal quiet armed) = hd (Esc1 armed) # Esc1 armed"
    by (rule conjunct1 [OF mp [OF conjunct1 [OF conjunct2 [OF conjunct2 [OF conjunct2
        [OF conjunct2 [OF conjunct2 [OF C]]]]]] q]])
  have "(300 :: int) \<le> 600 \<and> (600 :: int) \<le> 900
      \<and> hd (Esc1_bal armed_bal) = CmdUs1_bal armed_bal
      \<and> hd (Esc2_bal armed_bal) = CmdUs2_bal armed_bal"
    using hb by simp
  note d = mp [OF conjunct2 [OF conjunct2 [OF conjunct2 [OF conjunct2 [OF conjunct2
      [OF conjunct2 [OF conjunct2 [OF conjunct2 [OF A]]]]]]]] this]
  have k: "CmdUs1 settled = 1250"
    using settled_at_rest by (simp add: at_rest_def)
  have n: "(300 :: int) \<le> 600" "(600 :: int) \<le> 900"
    by simp_all
  show ?thesis
    by (insert r q h k n hb a b c d e last_tick, elim conjE, intro conjI; assumption)
qed

text \<open>
  C3 as stated fails at the safety interlock: in the run \<open>settled\<close> the last pulse
  width written to each ESC is 1250; one iteration with the sensor out of range writes
  1100, a change of 150, and the experiment is still running afterwards, so this is not
  the hard stop.
\<close>

theorem interlock_jump_counterexample:
  "ExperimentRunning settled \<and> ExperimentRunning (loop ideal tick_fault settled)
   \<and> hd (Esc1 settled) = 1250
   \<and> Esc1 (loop ideal tick_fault settled) = 1100 # Esc1 settled
   \<and> CmdUs1 (loop ideal tick_fault settled) = 1100
   \<and> SlewStepUs = 4"
  using settled_at_rest settled_last_write
  by (simp add: at_rest_def loop_def Let_def ControlStepPID_def HoldEscMin_def writeEsc_def
      tick_fault_def quiet_def PotMinSafe_def PulseMinUs_def SlewStepUs_def)

text \<open>
  C5, as amended. In the balance sketch the two command variables satisfy
  \<open>CmdUs1 + CmdUs2 = 2 * BaseUs\<close> after \<^verbatim>\<open>setup\<close> and after every loop iteration (its
  interlock writes \<open>PulseMinUs\<close> to both ESCs without changing the variables; a control
  step writes the variables). In the experiment sketch, for a control step while Running
  with the measurement in range that does not end the run and whose differential
  \<open>d = (int)uDiff\<close> satisfies \<open>\<bar>d\<bar> \<le> DeltaMaxUs\<close> (in \<open>ideal\<close>: whenever \<open>uDiff\<close> is not
  NaN): the step keeps \<open>CmdUs1 + CmdUs2 = 2 * BaseUs\<close> when it held before, and it
  establishes it, with the commands \<open>BaseUs + d\<close> and \<open>BaseUs - d\<close>, when both commands
  were within \<open>SlewStepUs\<close> of these targets. The equation does not hold at every step:
  an iteration while Running with the measurement out of range or one that ends the run,
  and an Idle iteration that serves no start request, leave both commands at
  \<open>PulseMinUs\<close>.
\<close>

theorem differential_symmetry:
  "CmdUs1_bal (run_bal F bs (setup_bal F now b')) + CmdUs2_bal (run_bal F bs (setup_bal F now b'))
     = 2 * BaseUs
   \<and> Esc1_bal (ControlStepPID_bal F raw now' b) = CmdUs1_bal (ControlStepPID_bal F raw now' b) # Esc1_bal b
   \<and> Esc2_bal (ControlStepPID_bal F raw now' b) = CmdUs2_bal (ControlStepPID_bal F raw now' b) # Esc2_bal b
   \<and> (raw0 < 300 \<or> raw0 > 900
      \<longrightarrow> CmdUs1_bal (loop_bal F raw0 raw now' b) = CmdUs1_bal b
        \<and> CmdUs2_bal (loop_bal F raw0 raw now' b) = CmdUs2_bal b
        \<and> Esc1_bal (loop_bal F raw0 raw now' b) = PulseMinUs # Esc1_bal b
        \<and> Esc2_bal (loop_bal F raw0 raw now' b) = PulseMinUs # Esc2_bal b)
   \<and> (ExperimentRunning s \<and> PotMinSafe \<le> raw_pid e \<and> raw_pid e \<le> PotMaxSafe
        \<and> sint (now_end e - ExperimentEndMs s) < 0
        \<and> \<bar>ftrunc F (uDiff F (raw_pid e) (now_pid e) s)\<bar> \<le> DeltaMaxUs
        \<and> CmdUs1 s + CmdUs2 s = 2 * BaseUs
      \<longrightarrow> CmdUs1 (loop F e s) + CmdUs2 (loop F e s) = 2 * BaseUs \<and> ExperimentRunning (loop F e s))
   \<and> (ExperimentRunning s \<and> PotMinSafe \<le> raw_pid e \<and> raw_pid e \<le> PotMaxSafe
        \<and> sint (now_end e - ExperimentEndMs s) < 0
        \<and> \<bar>ftrunc F (uDiff F (raw_pid e) (now_pid e) s)\<bar> \<le> DeltaMaxUs
        \<and> \<bar>BaseUs + ftrunc F (uDiff F (raw_pid e) (now_pid e) s) - CmdUs1 s\<bar> \<le> SlewStepUs
        \<and> \<bar>BaseUs - ftrunc F (uDiff F (raw_pid e) (now_pid e) s) - CmdUs2 s\<bar> \<le> SlewStepUs
      \<longrightarrow> CmdUs1 (loop F e s) = BaseUs + ftrunc F (uDiff F (raw_pid e) (now_pid e) s)
        \<and> CmdUs2 (loop F e s) = BaseUs - ftrunc F (uDiff F (raw_pid e) (now_pid e) s)
        \<and> CmdUs1 (loop F e s) + CmdUs2 (loop F e s) = 2 * BaseUs)
   \<and> ((ExperimentRunning s \<and> (raw_pid e < PotMinSafe \<or> raw_pid e > PotMaxSafe
              \<or> 0 \<le> sint (now_end e - ExperimentEndMs s)))
        \<or> (\<not> ExperimentRunning s \<and> web e \<noteq> Some GetStart)
      \<longrightarrow> CmdUs1 (loop F e s) = PulseMinUs \<and> CmdUs2 (loop F e s) = PulseMinUs)
   \<and> (uDiff ideal raw' now'' t \<noteq> NaN
      \<longrightarrow> \<bar>ftrunc ideal (uDiff ideal raw' now'' t)\<bar> \<le> DeltaMaxUs)"
proof (intro conjI impI)
  show "CmdUs1_bal (run_bal F bs (setup_bal F now b')) + CmdUs2_bal (run_bal F bs (setup_bal F now b'))
     = 2 * BaseUs"
    by (rule sum_run_bal) (simp add: synced_setup_bal)
  show "Esc1_bal (ControlStepPID_bal F raw now' b) = CmdUs1_bal (ControlStepPID_bal F raw now' b) # Esc1_bal b"
    "Esc2_bal (ControlStepPID_bal F raw now' b) = CmdUs2_bal (ControlStepPID_bal F raw now' b) # Esc2_bal b"
    by (rule synced_ControlStepPID_bal)+
next
  assume "raw0 < 300 \<or> raw0 > 900"
  then show "CmdUs1_bal (loop_bal F raw0 raw now' b) = CmdUs1_bal b"
    "CmdUs2_bal (loop_bal F raw0 raw now' b) = CmdUs2_bal b"
    "Esc1_bal (loop_bal F raw0 raw now' b) = PulseMinUs # Esc1_bal b"
    "Esc2_bal (loop_bal F raw0 raw now' b) = PulseMinUs # Esc2_bal b"
    by (auto simp: loop_bal_def)
next
  assume a: "ExperimentRunning s \<and> PotMinSafe \<le> raw_pid e \<and> raw_pid e \<le> PotMaxSafe
        \<and> sint (now_end e - ExperimentEndMs s) < 0
        \<and> \<bar>ftrunc F (uDiff F (raw_pid e) (now_pid e) s)\<bar> \<le> DeltaMaxUs
        \<and> CmdUs1 s + CmdUs2 s = 2 * BaseUs"
  then show "CmdUs1 (loop F e s) + CmdUs2 (loop F e s) = 2 * BaseUs"
    by (intro symmetric_step) simp_all
  from a show "ExperimentRunning (loop F e s)"
    by (simp add: running_step)
next
  assume a: "ExperimentRunning s \<and> PotMinSafe \<le> raw_pid e \<and> raw_pid e \<le> PotMaxSafe
        \<and> sint (now_end e - ExperimentEndMs s) < 0
        \<and> \<bar>ftrunc F (uDiff F (raw_pid e) (now_pid e) s)\<bar> \<le> DeltaMaxUs
        \<and> \<bar>BaseUs + ftrunc F (uDiff F (raw_pid e) (now_pid e) s) - CmdUs1 s\<bar> \<le> SlewStepUs
        \<and> \<bar>BaseUs - ftrunc F (uDiff F (raw_pid e) (now_pid e) s) - CmdUs2 s\<bar> \<le> SlewStepUs"
  then have b: "CmdUs1 (loop F e s) = BaseUs + ftrunc F (uDiff F (raw_pid e) (now_pid e) s)"
    "CmdUs2 (loop F e s) = BaseUs - ftrunc F (uDiff F (raw_pid e) (now_pid e) s)"
    by (simp_all add: arriving_step)
  then show "CmdUs1 (loop F e s) = BaseUs + ftrunc F (uDiff F (raw_pid e) (now_pid e) s)"
    "CmdUs2 (loop F e s) = BaseUs - ftrunc F (uDiff F (raw_pid e) (now_pid e) s)"
    "CmdUs1 (loop F e s) + CmdUs2 (loop F e s) = 2 * BaseUs"
    by simp_all
next
  assume a: "(ExperimentRunning s \<and> (raw_pid e < PotMinSafe \<or> raw_pid e > PotMaxSafe
              \<or> 0 \<le> sint (now_end e - ExperimentEndMs s)))
        \<or> (\<not> ExperimentRunning s \<and> web e \<noteq> Some GetStart)"
  from parking_step [OF this]
  show "CmdUs1 (loop F e s) = PulseMinUs" "CmdUs2 (loop F e s) = PulseMinUs"
    by simp_all
next
  assume "uDiff ideal raw' now'' t \<noteq> NaN"
  then show "\<bar>ftrunc ideal (uDiff ideal raw' now'' t)\<bar> \<le> DeltaMaxUs"
    using uDiff_bound by simp
qed

theorem differential_symmetry_witness:
  "CmdUs1_bal jolted + CmdUs2_bal jolted = 2 * BaseUs
   \<and> (200 :: int) < 300
   \<and> CmdUs1_bal (loop_bal ideal 200 200 21020 jolted) = CmdUs1_bal jolted
   \<and> Esc1_bal (loop_bal ideal 200 200 21020 jolted) = PulseMinUs # Esc1_bal jolted
   \<and> ExperimentRunning rising \<and> PotMinSafe \<le> raw_pid (centred 30775 :: fl env)
   \<and> raw_pid (centred 30775 :: fl env) \<le> PotMaxSafe
   \<and> sint (now_end (centred 30775 :: fl env) - ExperimentEndMs rising) < 0
   \<and> uDiff ideal 660 30775 rising \<noteq> NaN
   \<and> \<bar>ftrunc ideal (uDiff ideal 660 30775 rising)\<bar> \<le> DeltaMaxUs
   \<and> ftrunc ideal (uDiff ideal 660 30775 rising) = 0
   \<and> CmdUs1 rising = 1248 \<and> CmdUs2 rising = 1248
   \<and> CmdUs1 (loop ideal (centred 30775) rising) = 1250
   \<and> CmdUs2 (loop ideal (centred 30775) rising) = 1250
   \<and> ExperimentRunning settled \<and> PotMinSafe \<le> raw_pid (tick_lean :: fl env)
   \<and> raw_pid (tick_lean :: fl env) \<le> PotMaxSafe
   \<and> sint (now_end (tick_lean :: fl env) - ExperimentEndMs settled) < 0
   \<and> \<bar>ftrunc ideal (uDiff ideal (raw_pid (tick_lean :: fl env)) (now_pid (tick_lean :: fl env)) settled)\<bar>
        \<le> DeltaMaxUs
   \<and> CmdUs1 settled + CmdUs2 settled = 2 * BaseUs
   \<and> CmdUs1 (loop ideal tick_lean settled) + CmdUs2 (loop ideal tick_lean settled) = 2 * BaseUs
   \<and> raw_pid (tick_fault :: fl env) < PotMinSafe
   \<and> CmdUs1 (loop ideal tick_fault settled) = PulseMinUs
   \<and> CmdUs2 (loop ideal tick_fault settled) = PulseMinUs"
proof -
  note A = differential_symmetry [where F = ideal and bs = "[(900, 900, 21010)]" and now = 21000
      and b' = "boot_bal ideal" and s = rising and e = "centred 30775" and raw' = 660
      and now'' = 30775 and t = rising, folded jolted_reached]
  note B = differential_symmetry [where F = ideal and s = settled and e = tick_lean
      and raw0 = 200 and raw = 200 and now' = 21020 and b = jolted]
  note C = differential_symmetry [where F = ideal and s = settled and e = tick_fault]
  have j: "CmdUs1_bal jolted + CmdUs2_bal jolted = 2 * BaseUs"
    by (rule conjunct1 [OF A])
  have r: "ExperimentRunning rising \<and> PotMinSafe \<le> raw_pid (centred 30775 :: fl env)
      \<and> raw_pid (centred 30775 :: fl env) \<le> PotMaxSafe
      \<and> sint (now_end (centred 30775 :: fl env) - ExperimentEndMs rising) < 0
      \<and> ftrunc ideal (uDiff ideal 660 30775 rising) = 0
      \<and> CmdUs1 rising = 1248 \<and> CmdUs2 rising = 1248"
    using rising_at_rest rising_tick
    by (simp add: at_rest_def PotMinSafe_def PotMaxSafe_def)
  then have "ExperimentRunning rising \<and> PotMinSafe \<le> raw_pid (centred 30775 :: fl env)
      \<and> raw_pid (centred 30775 :: fl env) \<le> PotMaxSafe
      \<and> sint (now_end (centred 30775 :: fl env) - ExperimentEndMs rising) < 0
      \<and> \<bar>ftrunc ideal (uDiff ideal (raw_pid (centred 30775 :: fl env))
             (now_pid (centred 30775 :: fl env)) rising)\<bar> \<le> DeltaMaxUs
      \<and> \<bar>BaseUs + ftrunc ideal (uDiff ideal (raw_pid (centred 30775 :: fl env))
             (now_pid (centred 30775 :: fl env)) rising) - CmdUs1 rising\<bar> \<le> SlewStepUs
      \<and> \<bar>BaseUs - ftrunc ideal (uDiff ideal (raw_pid (centred 30775 :: fl env))
             (now_pid (centred 30775 :: fl env)) rising) - CmdUs2 rising\<bar> \<le> SlewStepUs"
    by (simp add: rising_tick DeltaMaxUs_def BaseUs_def SlewStepUs_def)
  from mp [OF conjunct1 [OF conjunct2 [OF conjunct2 [OF conjunct2 [OF conjunct2
      [OF conjunct2 [OF A]]]]]] this]
  have a: "CmdUs1 (loop ideal (centred 30775) rising) = 1250
      \<and> CmdUs2 (loop ideal (centred 30775) rising) = 1250"
    using r by (simp add: rising_tick BaseUs_def)
  have q: "ExperimentRunning settled \<and> PotMinSafe \<le> raw_pid (tick_lean :: fl env)
      \<and> raw_pid (tick_lean :: fl env) \<le> PotMaxSafe
      \<and> sint (now_end (tick_lean :: fl env) - ExperimentEndMs settled) < 0
      \<and> \<bar>ftrunc ideal (uDiff ideal (raw_pid (tick_lean :: fl env))
             (now_pid (tick_lean :: fl env)) settled)\<bar> \<le> DeltaMaxUs
      \<and> CmdUs1 settled + CmdUs2 settled = 2 * BaseUs"
    using settled_at_rest tick_lean_ok settled_uDiff
    by (simp add: at_rest_def BaseUs_def)
  from mp [OF conjunct1 [OF conjunct2 [OF conjunct2 [OF conjunct2 [OF conjunct2 [OF B]]]]] this]
  have b: "CmdUs1 (loop ideal tick_lean settled) + CmdUs2 (loop ideal tick_lean settled)
      = 2 * BaseUs"
    by (rule conjunct1)
  have f: "raw_pid (tick_fault :: fl env) < PotMinSafe"
    by (simp add: tick_fault_def quiet_def PotMinSafe_def)
  then have "(ExperimentRunning settled \<and> (raw_pid (tick_fault :: fl env) < PotMinSafe
        \<or> raw_pid (tick_fault :: fl env) > PotMaxSafe
        \<or> 0 \<le> sint (now_end (tick_fault :: fl env) - ExperimentEndMs settled)))
      \<or> (\<not> ExperimentRunning settled \<and> web (tick_fault :: fl env) \<noteq> Some GetStart)"
    using settled_at_rest by (simp add: at_rest_def)
  from mp [OF conjunct1 [OF conjunct2 [OF conjunct2 [OF conjunct2 [OF conjunct2
      [OF conjunct2 [OF conjunct2 [OF C]]]]]]] this]
  have c: "CmdUs1 (loop ideal tick_fault settled) = PulseMinUs
      \<and> CmdUs2 (loop ideal tick_fault settled) = PulseMinUs" .
  have u: "uDiff ideal 660 30775 rising \<noteq> NaN"
    using rising_at_rest at_rest_uDiff(4) [of 1248 rising 30775] by simp
  from mp [OF conjunct2 [OF conjunct2 [OF conjunct2 [OF conjunct2 [OF conjunct2
      [OF conjunct2 [OF conjunct2 [OF A]]]]]]] this]
  have v: "\<bar>ftrunc ideal (uDiff ideal 660 30775 rising)\<bar> \<le> DeltaMaxUs" .
  have "(200 :: int) < 300 \<or> (200 :: int) > 900"
    by simp
  from mp [OF conjunct1 [OF conjunct2 [OF conjunct2 [OF conjunct2 [OF B]]]] this]
  have i: "CmdUs1_bal (loop_bal ideal 200 200 21020 jolted) = CmdUs1_bal jolted
      \<and> Esc1_bal (loop_bal ideal 200 200 21020 jolted) = PulseMinUs # Esc1_bal jolted"
    by simp
  show ?thesis
    using j r a q b f c i u v by simp
qed

text \<open>
  C5 as stated fails at the safety interlock: in the run \<open>settled\<close> the commands
  sum to \<open>2 * BaseUs\<close>; after one iteration with the sensor out of range, still
  Running, they sum to \<open>2 * PulseMinUs\<close>.
\<close>

theorem interlock_breaks_symmetry_counterexample:
  "ExperimentRunning settled \<and> CmdUs1 settled + CmdUs2 settled = 2 * BaseUs
   \<and> ExperimentRunning (loop ideal tick_fault settled)
   \<and> CmdUs1 (loop ideal tick_fault settled) + CmdUs2 (loop ideal tick_fault settled)
       = 2 * PulseMinUs
   \<and> 2 * PulseMinUs \<noteq> 2 * BaseUs"
  using settled_at_rest
  by (simp add: at_rest_def loop_def Let_def ControlStepPID_def HoldEscMin_def writeEsc_def
      tick_fault_def quiet_def PotMinSafe_def BaseUs_def PulseMinUs_def)

text \<open>
  C10. Take any stretch of loop iterations that begins with an empty sample buffer and
  serves no start request, so that all its samples belong to one run. If the clock
  readings of its successive sampling calls, counted from \<open>ExperimentStartMs\<close>, are
  strictly increasing (every iteration ends with a delay) and stay below 65536 ms (the
  range of the 16-bit offsets), then the recorded offsets are strictly increasing, and so
  is the time array that the data endpoint serves.
\<close>

theorem sample_times_increasing:
  assumes "SampleCount s = 0"
    and "\<forall>e \<in> set es. web e \<noteq> Some GetStart"
    and "sorted_wrt (<) (map (\<lambda>e. unat (now_sample e - ExperimentStartMs s)) es)"
    and "\<forall>e \<in> set es. unat (now_sample e - ExperimentStartMs s) < 65536"
  shows "sorted_wrt (<) (map unat (served (Tms (run F es s)) (run F es s)))
    \<and> (\<forall>q. fst (HandleData (run F es s)) = DataJson q \<longrightarrow> sorted_wrt (<) (map unat (d_t q)))"
proof -
  have "sample_inv 0 s"
    using assms(1) by (simp add: sample_inv_def served_def MaxSamples_def)
  from sample_inv_run [OF this assms(2,3)] assms(4)
  obtain b' where "sample_inv b' (run F es s)" by auto
  then have "sorted_wrt (<) (map unat (served (Tms (run F es s)) (run F es s)))"
    by (simp add: sample_inv_def)
  then show ?thesis
    by (auto simp: HandleData_def split: if_splits)
qed

theorem sample_times_increasing_witness:
  "SampleCount started = 0
   \<and> unat (now_sample (tick_a :: fl env) - ExperimentStartMs started) = 405
   \<and> unat (now_sample (tick_b :: fl env) - ExperimentStartMs started) = 415
   \<and> unat (now_sample (tick_bad :: fl env) - ExperimentStartMs started) = 625
   \<and> web (tick_a :: fl env) = None \<and> web (tick_b :: fl env) = None
   \<and> web (tick_bad :: fl env) = None
   \<and> map unat (served (Tms sampled3) sampled3) = [405, 415, 625]
   \<and> sorted_wrt (<) (map unat (served (Tms sampled3) sampled3))"
proof -
  have "sorted_wrt (<) (map unat (served (Tms sampled3) sampled3))"
    using sample_times_increasing [of started "[tick_a, tick_b, tick_bad]" ideal,
        folded sampled3_def]
    by (simp add: three_ticks_clock)
  then show ?thesis
    by (simp add: three_ticks_clock three_ticks_served)
qed

text \<open>
  C9, as amended. The loop iteration whose clock reading at the end check has reached
  \<open>ExperimentEndMs\<close> leaves the phase Idle, both commands at \<open>PulseMinUs\<close> and the
  sample buffer readable: the data endpoint then serves the recorded arrays when there is
  at least one sample. Before that the run goes on. Each recorded offset is the clock
  reading of its sampling call minus \<open>ExperimentStartMs\<close>, cut to 16 bits, where
  \<open>ExperimentStartMs\<close> is read before the slew to base and \<open>ExperimentEndMs\<close> is
  \<open>ExperimentDurationMs\<close> after a reading taken after that slew; the offsets are
  therefore not bounded by the run duration.
\<close>

theorem run_end:
  "(ExperimentRunning s \<and> 0 \<le> sint (now_end e - ExperimentEndMs s)
     \<longrightarrow> \<not> ExperimentRunning (loop F e s) \<and> SamplesReady (loop F e s)
       \<and> CmdUs1 (loop F e s) = PulseMinUs \<and> CmdUs2 (loop F e s) = PulseMinUs
       \<and> (SampleCount (loop F e s) \<noteq> 0
          \<longrightarrow> (\<exists>q. fst (HandleData (loop F e s)) = DataJson q
                 \<and> d_t q = served (Tms (loop F e s)) (loop F e s))))
   \<and> (ExperimentRunning s \<and> sint (now_end e - ExperimentEndMs s) < 0
     \<longrightarrow> ExperimentRunning (loop F e s))
   \<and> (ExperimentRunning s \<and> NextSampleAtMs s \<le> now \<and> uint (SampleCount s) < MaxSamples
     \<longrightarrow> SampleCount (TrySample F now raw s) = SampleCount s + 1
       \<and> Tms (TrySample F now raw s) (unat (SampleCount s)) = ucast (now - ExperimentStartMs s))
   \<and> (\<not> ExperimentRunning s
     \<longrightarrow> ExperimentStartMs (snd (HandleStart F e s)) = now_start e
       \<and> ExperimentEndMs (snd (HandleStart F e s)) = now_armed e + ExperimentDurationMs)"
  by (auto simp: loop_def Let_def HoldEscMin_def writeEsc_def HandleData_def TrySample_def
      HandleStart_def SlewBothTo_def not_less)

theorem run_end_witness:
  "ExperimentRunning nearly
   \<and> 0 \<le> sint (now_end (centred 50395 :: fl env) - ExperimentEndMs nearly)
   \<and> \<not> ExperimentRunning finished \<and> SamplesReady finished
   \<and> CmdUs1 finished = PulseMinUs \<and> SampleCount finished = 408
   \<and> (\<exists>q. fst (HandleData finished) = DataJson q \<and> d_t q = served (Tms finished) finished)
   \<and> \<not> ExperimentRunning armed
   \<and> ExperimentStartMs (snd (HandleStart ideal start_req armed)) = 30000
   \<and> ExperimentEndMs (snd (HandleStart ideal start_req armed)) = 50390"
proof -
  have a: "ExperimentRunning nearly
      \<and> 0 \<le> sint (now_end (centred 50395 :: fl env) - ExperimentEndMs nearly)"
    using before_finish by (simp add: at_rest_def centred_def quiet_def)
  have b: "SampleCount finished \<noteq> 0"
    by (simp add: finished_vals)
  from run_end [of nearly "centred 50395" ideal 0 0, folded finished_def] a b
  have c: "\<not> ExperimentRunning finished \<and> SamplesReady finished
     \<and> CmdUs1 finished = PulseMinUs
     \<and> (\<exists>q. fst (HandleData finished) = DataJson q \<and> d_t q = served (Tms finished) finished)"
    by blast
  from run_end [of armed start_req ideal 0 0] armed_idle
  have d: "ExperimentStartMs (snd (HandleStart ideal start_req armed)) = now_start (start_req :: fl env)
     \<and> ExperimentEndMs (snd (HandleStart ideal start_req armed))
         = now_armed (start_req :: fl env) + ExperimentDurationMs"
    by blast
  show ?thesis
    using a c d armed_idle
    by (simp add: finished_vals start_req_def quiet_def ExperimentDurationMs_def)
qed

text \<open>
  C9 as stated fails: in the run \<open>finished\<close> (start at clock 30000, slew of
  390 ms, iterations every 10 ms with the arm at the setpoint) the buffer ends with 408
  samples and the last one has the offset 20355 ms, more than the 20000 ms of
  \<open>ExperimentDurationMs\<close>.
\<close>

theorem last_offset_counterexample:
  "\<not> ExperimentRunning finished \<and> SamplesReady finished \<and> SampleCount finished = 408
   \<and> unat (last (served (Tms finished) finished)) = 20355
   \<and> unat ExperimentDurationMs = 20000"
  by (simp add: finished_vals last_served ExperimentDurationMs_def)

end
